theory Spec2Isabelle
  imports Complex_Main
begin

section \<open>The contribution-graph filler (src/index.js) as HOL functions\<close>

text \<open>
  The program is one script. Its pure parts (the pattern compiler, the day sequencer, the
  formatting of timestamps) become HOL functions; its effects (the activity file, the git
  index and history, the two console streams, the draws of \<open>Math.random\<close>) act on an
  explicit \<open>world\<close> record that every effectful function takes and returns.
  \<open>process.exit\<close> and a thrown exception are results of their own (\<open>Exited\<close>,
  \<open>Thrown\<close>), so that every way the script can stop is a value.
\<close>

subsection \<open>Strings of the JavaScript runtime\<close>

text \<open>\<open>s.startsWith(p)\<close>.\<close>

definition startsWith :: "string \<Rightarrow> string \<Rightarrow> bool" where
  "startsWith s p = (take (length p) s = p)"

text \<open>
  \<open>toUpperCase\<close> and \<open>toLowerCase\<close> on ASCII text: the letters are mapped, every other
  character is kept. (Command-line arguments are taken to be ASCII.)
\<close>

definition lowerLetters :: string where
  "lowerLetters = ''abcdefghijklmnopqrstuvwxyz''"

definition upperLetters :: string where
  "upperLetters = ''ABCDEFGHIJKLMNOPQRSTUVWXYZ''"

definition upperChar :: "char \<Rightarrow> char" where
  "upperChar c = (case map_of (zip lowerLetters upperLetters) c of Some u \<Rightarrow> u | None \<Rightarrow> c)"

definition lowerChar :: "char \<Rightarrow> char" where
  "lowerChar c = (case map_of (zip upperLetters lowerLetters) c of Some l \<Rightarrow> l | None \<Rightarrow> c)"

definition toUpperCase :: "string \<Rightarrow> string" where
  "toUpperCase s = map upperChar s"

definition toLowerCase :: "string \<Rightarrow> string" where
  "toLowerCase s = map lowerChar s"

text \<open>\<open>String(n)\<close> for an integer \<open>n\<close>: its decimal digits, with a minus sign below zero.\<close>

fun digitsOf :: "nat \<Rightarrow> string" where
  "digitsOf n =
     (if n < 10 then [''0123456789'' ! n]
      else digitsOf (n div 10) @ [''0123456789'' ! (n mod 10)])"

declare digitsOf.simps [simp del]

definition String_js :: "int \<Rightarrow> string" where
  "String_js n = (if n < 0 then ''-'' @ digitsOf (nat (- n)) else digitsOf (nat n))"

text \<open>\<open>s.padStart(n, c)\<close> with a one-character filler.\<close>

definition padStart :: "string \<Rightarrow> nat \<Rightarrow> char \<Rightarrow> string" where
  "padStart s n c = replicate (n - length s) c @ s"

text \<open>
  \<open>s.replace(pat, rep)\<close> with a string pattern: the first occurrence only. (The
  replacements of this program are digits and dashes, so the \<open>$\<close> patterns of a
  replacement string never occur.)
\<close>

fun replace_js :: "string \<Rightarrow> string \<Rightarrow> string \<Rightarrow> string" where
  "replace_js [] pat rep = (if pat = [] then rep else [])"
| "replace_js (c # cs) pat rep =
     (if startsWith (c # cs) pat then rep @ drop (length pat) (c # cs)
      else c # replace_js cs pat rep)"

text \<open>\<open>xs.join(sep)\<close> on an array of strings.\<close>

fun join_js :: "string \<Rightarrow> string list \<Rightarrow> string" where
  "join_js sep [] = []"
| "join_js sep [x] = x"
| "join_js sep (x # y # ys) = x @ sep @ join_js sep (y # ys)"

text \<open>
  \<open>xs[i]\<close> for \<open>i \<ge> 0\<close>: \<open>None\<close> is \<open>undefined\<close>. \<open>xs.indexOf(x)\<close> is \<open>-1\<close> when \<open>x\<close>
  is absent; \<open>xs.find(P)\<close> is the first element that satisfies \<open>P\<close>.
\<close>

definition nth_opt :: "'a list \<Rightarrow> int \<Rightarrow> 'a option" where
  "nth_opt xs i = (if 0 \<le> i \<and> i < int (length xs) then Some (xs ! nat i) else None)"

fun indexOf :: "'a list \<Rightarrow> 'a \<Rightarrow> int" where
  "indexOf [] x = - 1"
| "indexOf (y # ys) x =
     (if y = x then 0 else (let r = indexOf ys x in if r < 0 then - 1 else r + 1))"

subsection \<open>The pattern compiler\<close>

text \<open>
  A pattern is an array of strings, one per weekday. \<open>p[row]\<close> beyond the array is
  \<open>undefined\<close>, which \<open>join\<close> renders as the empty string.
\<close>

type_synonym pattern = "string list"

definition pat_H :: pattern where
  "pat_H = [''#.#'', ''#.#'', ''#.#'', ''###'', ''#.#'', ''#.#'', ''#.#'']"

definition pat_I :: pattern where
  "pat_I = [''###'', ''.#.'', ''.#.'', ''.#.'', ''.#.'', ''.#.'', ''###'']"

definition pat_HEART :: pattern where
  "pat_HEART = [''.#.#.'', ''#####'', ''#####'', ''.###.'', ''.###.'', ''..#..'', ''..#..'']"

definition pat_SMILE :: pattern where
  "pat_SMILE =
     [''..##..'', ''.#..#.'', ''#.##.#'', ''#....#'', ''#.##.#'', ''.#..#.'', ''..##..'']"

definition spacer :: pattern where
  "spacer = [''.'', ''.'', ''.'', ''.'', ''.'', ''.'', ''.'']"

definition partsOf :: "pattern list \<Rightarrow> pattern list" where
  "partsOf letters =
     concat (map (\<lambda>(i, letter). (if 0 < i then [spacer] else []) @ [letter])
                 (enumerate 0 letters))"

definition rowAt :: "pattern \<Rightarrow> nat \<Rightarrow> string" where
  "rowAt p row = (if row < length p then p ! row else [])"

definition combinePatterns :: "pattern list \<Rightarrow> pattern" where
  "combinePatterns letters =
     map (\<lambda>row. concat (map (\<lambda>p. rowAt p row) (partsOf letters))) [0..<7]"

text \<open>
  The \<open>PATTERNS\<close> object in the order of its keys (\<open>Object.keys\<close>): \<open>HI\<close> is declared
  last in the literal and assigned once the compiler is defined.
\<close>

definition PATTERNS :: "(string \<times> pattern) list" where
  "PATTERNS =
     [(''H'', pat_H), (''I'', pat_I), (''HEART'', pat_HEART), (''SMILE'', pat_SMILE),
      (''HI'', combinePatterns [pat_H, pat_I])]"

subsection \<open>Dates of the JavaScript runtime\<close>

text \<open>
  A \<open>Date\<close> object is its time value: milliseconds since 1970-01-01T00:00:00Z. A calendar
  date (the ISO string \<open>YYYY-MM-DD\<close> of the configuration) is represented by its day
  number, the days from 1970-01-01 to it: 2025-01-01 is day 20089. \<open>LocalTime\<close>,
  \<open>UTC\<close>, \<open>Day\<close>, \<open>TimeWithinDay\<close> and \<open>MakeDate\<close> are the abstract operations of
  ECMAScript of the same names.
\<close>

type_synonym day = int
type_synonym timeval = int

definition msPerDay :: int where
  "msPerDay = 86400000"

definition msPerMinute :: int where
  "msPerMinute = 60000"

text \<open>
  The local time zone: a standard offset from UTC, in minutes east, and the periods of
  daylight saving time, each from an instant to an instant, in which the offset is one
  hour more. \<open>offsetAt\<close> is the offset at an instant. \<open>offsetOfLocal\<close> is the offset by
  which ECMAScript reads a local time: a local time that the clocks skip, or that they
  show twice, is read with the offset before the change. A zone without periods has a
  constant offset.
\<close>

record zone =
  stdOffset :: int
  dstPeriods :: "(timeval \<times> timeval) list"

definition fixedZone :: "int \<Rightarrow> zone" where
  "fixedZone m = \<lparr>stdOffset = m, dstPeriods = []\<rparr>"

definition inDST :: "zone \<Rightarrow> timeval \<Rightarrow> bool" where
  "inDST z t = list_ex (\<lambda>(a, b). a \<le> t \<and> t < b) (dstPeriods z)"

definition offsetAt :: "zone \<Rightarrow> timeval \<Rightarrow> int" where
  "offsetAt z t = stdOffset z + (if inDST z t then 60 else 0)"

definition offsetOfLocal :: "zone \<Rightarrow> int \<Rightarrow> int" where
  "offsetOfLocal z l =
     stdOffset z + (if inDST z (l - (stdOffset z + 60) * msPerMinute) then 60 else 0)"

definition LocalTime :: "zone \<Rightarrow> timeval \<Rightarrow> int" where
  "LocalTime z t = t + offsetAt z t * msPerMinute"

definition UTC :: "zone \<Rightarrow> int \<Rightarrow> timeval" where
  "UTC z l = l - offsetOfLocal z l * msPerMinute"

definition Day :: "int \<Rightarrow> day" where
  "Day t = t div msPerDay"

definition TimeWithinDay :: "int \<Rightarrow> int" where
  "TimeWithinDay t = t mod msPerDay"

definition MakeDate :: "day \<Rightarrow> int \<Rightarrow> int" where
  "MakeDate d time = d * msPerDay + time"

text \<open>
  \<open>new Date(iso + "T00:00:00")\<close>: a date-time without a zone is local time. Where the
  clocks skip midnight, the instant is one hour past it.
\<close>

definition localMidnight :: "zone \<Rightarrow> day \<Rightarrow> timeval" where
  "localMidnight z d = UTC z (MakeDate d 0)"

text \<open>
  \<open>d.setDate(d.getDate() + n)\<close>: the local calendar day moves by \<open>n\<close>, the local time
  within the day is kept, and the local time made of them is read back as an instant.
\<close>

definition addDays :: "zone \<Rightarrow> timeval \<Rightarrow> int \<Rightarrow> timeval" where
  "addDays z t n =
     UTC z (MakeDate (Day (LocalTime z t) + n) (TimeWithinDay (LocalTime z t)))"

text \<open>
  Year, month (1 to 12) and day of the month of a day number, in the proleptic Gregorian
  calendar (ECMAScript's \<open>YearFromTime\<close>, \<open>MonthFromTime\<close> and \<open>DateFromTime\<close>).
\<close>

definition civil :: "day \<Rightarrow> int \<times> int \<times> int" where
  "civil z0 =
     (let z = z0 + 719468;
          era = z div 146097;
          doe = z mod 146097;
          yoe = (doe - doe div 1460 + doe div 36524 - doe div 146096) div 365;
          y = yoe + era * 400;
          doy = doe - (365 * yoe + yoe div 4 - yoe div 100);
          mp = (5 * doy + 2) div 153;
          d = doy - (153 * mp + 2) div 5 + 1;
          m = (if mp < 10 then mp + 3 else mp - 9)
      in (if m \<le> 2 then y + 1 else y, m, d))"

definition getFullYear :: "zone \<Rightarrow> timeval \<Rightarrow> int" where
  "getFullYear z t = fst (civil (Day (LocalTime z t)))"

definition getMonth :: "zone \<Rightarrow> timeval \<Rightarrow> int" where
  "getMonth z t = fst (snd (civil (Day (LocalTime z t)))) - 1"

definition getDate :: "zone \<Rightarrow> timeval \<Rightarrow> int" where
  "getDate z t = snd (snd (civil (Day (LocalTime z t))))"

text \<open>
  \<open>d.toISOString()\<close>: the UTC date and time; a year outside 0 to 9999 is written with a
  sign and six digits.
\<close>

definition isoYear :: "int \<Rightarrow> string" where
  "isoYear y =
     (if 0 \<le> y \<and> y \<le> 9999 then padStart (String_js y) 4 (CHR ''0'')
      else (if y < 0 then ''-'' else ''+'') @ padStart (String_js \<bar>y\<bar>) 6 (CHR ''0''))"

definition toISOString :: "timeval \<Rightarrow> string" where
  "toISOString t =
     (let (y, m, d) = civil (Day t); r = TimeWithinDay t
      in isoYear y @ ''-'' @ padStart (String_js m) 2 (CHR ''0'') @ ''-''
         @ padStart (String_js d) 2 (CHR ''0'') @ ''T''
         @ padStart (String_js (r div 3600000)) 2 (CHR ''0'') @ '':''
         @ padStart (String_js (r mod 3600000 div 60000)) 2 (CHR ''0'') @ '':''
         @ padStart (String_js (r mod 60000 div 1000)) 2 (CHR ''0'') @ ''.''
         @ padStart (String_js (r mod 1000)) 3 (CHR ''0'') @ ''Z'')"

subsection \<open>The day sequencer\<close>

record entry =
  date :: timeval
  iso :: string

text \<open>
  The generator, as the list of the entries it yields. The loop ends in every zone: a
  step moves the instant forward by a day, give or take the hour of a change of offset.
\<close>

function dayRange_loop :: "zone \<Rightarrow> timeval \<Rightarrow> timeval \<Rightarrow> entry list" where
  "dayRange_loop z current end' =
     (if current \<le> end'
      then \<lparr>date = current, iso = take 10 (toISOString current)\<rparr>
           # dayRange_loop z (addDays z current 1) end'
      else [])"
  by pat_completeness auto
termination
proof (relation "measure (\<lambda>(z, current, end'). nat (end' - current + 1))")
  show "wf (measure (\<lambda>(z, current, end'). nat (end' - current + 1)))"
    by simp
next
  fix z :: zone and current end' :: int
  assume le: "current \<le> end'"
  let ?l = "LocalTime z current"
  have "MakeDate (Day ?l + 1) (TimeWithinDay ?l) = ?l + msPerDay"
    by (simp add: MakeDate_def Day_def TimeWithinDay_def algebra_simps)
  then have step: "addDays z current 1
      = current + offsetAt z current * msPerMinute + msPerDay
        - offsetOfLocal z (?l + msPerDay) * msPerMinute"
    by (simp add: addDays_def UTC_def LocalTime_def)
  have "stdOffset z \<le> offsetAt z current"
    by (simp add: offsetAt_def)
  moreover have "offsetOfLocal z (?l + msPerDay) \<le> stdOffset z + 60"
    by (simp add: offsetOfLocal_def)
  ultimately have "current < addDays z current 1"
    unfolding step by (simp add: msPerDay_def msPerMinute_def)
  with le show "((z, addDays z current 1, end'), (z, current, end'))
      \<in> measure (\<lambda>(z, current, end'). nat (end' - current + 1))"
    by simp
qed

declare dayRange_loop.simps [simp del]

definition dayRange :: "zone \<Rightarrow> day \<Rightarrow> day \<Rightarrow> entry list" where
  "dayRange z startISO endISO =
     dayRange_loop z (localMidnight z startISO) (localMidnight z endISO)"

subsection \<open>Configuration, console and world\<close>

text \<open>
  \<open>CONFIG\<close> is edited by the user, so the functions take a configuration; the constant
  \<open>CONFIG\<close> holds the values of the source. The dates are day numbers: 2025-01-01 is
  20089, 2025-12-31 is 20453, 2025-01-05 is 20093. The counts are integers.
\<close>

record config =
  START_DATE :: day
  END_DATE :: day
  MIN_COMMITS_PER_DAY :: int
  MAX_COMMITS_PER_DAY :: int
  ACTIVITY_FILE :: string
  COMMIT_MESSAGE :: string
  PATTERN_START_DATE :: day
  PATTERN_COMMITS :: int

definition CONFIG :: config where
  "CONFIG = \<lparr>START_DATE = 20089, END_DATE = 20453,
     MIN_COMMITS_PER_DAY = 0, MAX_COMMITS_PER_DAY = 3,
     ACTIVITY_FILE = ''activity.txt'',
     COMMIT_MESSAGE = ''Activity update #{n} on {date}'',
     PATTERN_START_DATE = 20093, PATTERN_COMMITS = 3\<rparr>"

datatype exn = TypeError | ExternalError

text \<open>
  One constructor per \<open>console.log\<close> or \<open>console.error\<close> call of the source, with the
  values the call interpolates (the fixed text of the messages holds characters outside
  ASCII).
\<close>

datatype line =
    BannerRule
  | BannerTitle
  | BannerRuleBlank
  | InitialisingRepo
  | FillHeader
  | FillRange day day
  | FillDensity int int
  | FillProgress nat nat
  | FillDone nat nat
  | UnknownPattern string
  | AvailablePatterns string
  | PatternHeader string
  | PatternStart day
  | PatternPerCell int
  | PatternDone nat
  | UnknownMode string
  | NextSteps
  | NextRemote
  | NextBranch
  | NextPush
  | FatalError exn

record commit =
  message :: string
  authorDate :: string
  committerDate :: string
  snapshot :: "string \<rightharpoonup> string"

text \<open>
  The world: the files of the working directory, the git index, the history (oldest
  commit first), whether the directory is a repository, the two console streams, and two
  counters: the calls of \<open>Math.random\<close> and the calls to the file system and to git made
  so far.
\<close>

record world =
  files :: "string \<rightharpoonup> string"
  staged :: "string \<rightharpoonup> string"
  commits :: "commit list"
  isRepo :: bool
  stdout :: "line list"
  stderr :: "line list"
  draws :: nat
  calls :: nat

text \<open>
  What the script does not decide: the local time zone, the values
  \<open>Math.random\<close> returns (the \<open>n\<close>-th call returns \<open>rnd n\<close>), which calls to the file
  system or to git throw, the environment variables of the process, and the clock git
  reads when it is given no date.
\<close>

record env =
  tz :: zone
  rnd :: "nat \<Rightarrow> real"
  extFail :: "nat \<Rightarrow> bool"
  procEnv :: "string \<rightharpoonup> string"
  wallClock :: string

text \<open>
  An asynchronous function returns (\<open>Ok\<close>), throws (\<open>Thrown\<close>) or ends the process
  (\<open>Exited\<close>, \<open>process.exit\<close>); each result carries the world it leaves.
\<close>

datatype 'a outcome = Ok 'a world | Thrown exn world | Exited int world

definition andThen :: "'a outcome \<Rightarrow> ('a \<Rightarrow> world \<Rightarrow> 'b outcome) \<Rightarrow> 'b outcome" where
  "andThen r f =
     (case r of Ok a w \<Rightarrow> f a w | Thrown x w \<Rightarrow> Thrown x w | Exited c w \<Rightarrow> Exited c w)"

text \<open>A \<open>for\<close> loop over \<open>xs\<close> whose body updates the local variables \<open>acc\<close>.\<close>

primrec forEach ::
  "'b list \<Rightarrow> ('a \<Rightarrow> 'b \<Rightarrow> world \<Rightarrow> 'a outcome) \<Rightarrow> 'a \<Rightarrow> world \<Rightarrow> 'a outcome" where
  "forEach [] body acc w = Ok acc w"
| "forEach (x # xs) body acc w =
     andThen (body acc x w) (\<lambda>acc' w'. forEach xs body acc' w')"

definition console_log :: "line \<Rightarrow> world \<Rightarrow> world" where
  "console_log l w = w\<lparr>stdout := stdout w @ [l]\<rparr>"

definition console_error :: "line \<Rightarrow> world \<Rightarrow> world" where
  "console_error l w = w\<lparr>stderr := stderr w @ [l]\<rparr>"

text \<open>A call to the file system or to git: it throws when the environment says so.\<close>

definition external :: "env \<Rightarrow> (world \<Rightarrow> world) \<Rightarrow> world \<Rightarrow> unit outcome" where
  "external e f w =
     (if extFail e (calls w) then Thrown ExternalError (w\<lparr>calls := Suc (calls w)\<rparr>)
      else Ok () (f (w\<lparr>calls := Suc (calls w)\<rparr>)))"

subsection \<open>The commit writer\<close>

definition appendTo :: "(string \<rightharpoonup> string) \<Rightarrow> string \<Rightarrow> string \<Rightarrow> (string \<rightharpoonup> string)" where
  "appendTo fs p txt = fs(p \<mapsto> (case fs p of None \<Rightarrow> [] | Some c \<Rightarrow> c) @ txt)"

definition appendFileSync :: "string \<Rightarrow> string \<Rightarrow> world \<Rightarrow> world" where
  "appendFileSync p txt w = w\<lparr>files := appendTo (files w) p txt\<rparr>"

text \<open>\<open>git add p\<close>: the index takes the working copy of \<open>p\<close>.\<close>

definition git_add :: "string \<Rightarrow> world \<Rightarrow> world" where
  "git_add p w = w\<lparr>staged := (staged w)(p := files w p)\<rparr>"

text \<open>
  \<open>git commit -m msg\<close> with the environment variables \<open>vars\<close> and the option
  \<open>--date\<close>, as git documents it: the author date is the \<open>--date\<close> option, else
  \<open>GIT_AUTHOR_DATE\<close>, else the clock; the committer date is \<open>GIT_COMMITTER_DATE\<close>, else
  the clock. The commit records the index.
\<close>

definition git_commit ::
  "(string \<rightharpoonup> string) \<Rightarrow> string \<Rightarrow> string option \<Rightarrow> string \<Rightarrow> world \<Rightarrow> world" where
  "git_commit vars msg dateOption clock w =
     w\<lparr>commits := commits w @
        [\<lparr>message = msg,
          authorDate =
            (case dateOption of Some d \<Rightarrow> d
             | None \<Rightarrow> (case vars ''GIT_AUTHOR_DATE'' of Some d \<Rightarrow> d | None \<Rightarrow> clock)),
          committerDate =
            (case vars ''GIT_COMMITTER_DATE'' of Some d \<Rightarrow> d | None \<Rightarrow> clock),
          snapshot = staged w\<rparr>]\<rparr>"

definition activityLine :: "string \<Rightarrow> string \<Rightarrow> string" where
  "activityLine msg dateStr = msg @ ''  |  '' @ dateStr @ ''\<newline>''"

definition makeCommit :: "config \<Rightarrow> env \<Rightarrow> string \<Rightarrow> string \<Rightarrow> world \<Rightarrow> unit outcome" where
  "makeCommit cfg e dateStr msg w =
     andThen (external e (appendFileSync (ACTIVITY_FILE cfg) (activityLine msg dateStr)) w)
       (\<lambda>_ w1. andThen (external e (git_add (ACTIVITY_FILE cfg)) w1)
          (\<lambda>_ w2. external e
             (git_commit
                ((procEnv e)(''GIT_AUTHOR_DATE'' \<mapsto> dateStr, ''GIT_COMMITTER_DATE'' \<mapsto> dateStr))
                msg (Some dateStr) (wallClock e)) w2))"

subsection \<open>Random numbers and timestamps\<close>

text \<open>
  \<open>randomInt(min, max)\<close> calls \<open>Math.random\<close> once; \<open>i\<close> is the number of that call.
  \<open>formatGitDate(date)\<close> makes three calls, the first of them call \<open>i\<close>.
\<close>

definition randomInt :: "env \<Rightarrow> int \<Rightarrow> int \<Rightarrow> nat \<Rightarrow> int" where
  "randomInt e min' max' i = \<lfloor>rnd e i * real_of_int (max' - min' + 1)\<rfloor> + min'"

definition pad :: "int \<Rightarrow> string" where
  "pad n = padStart (String_js n) 2 (CHR ''0'')"

definition formatGitDate :: "env \<Rightarrow> timeval \<Rightarrow> nat \<Rightarrow> string" where
  "formatGitDate e d i =
     String_js (getFullYear (tz e) d) @ ''-'' @ pad (getMonth (tz e) d + 1) @ ''-''
     @ pad (getDate (tz e) d) @ '' '' @ pad (randomInt e 9 21 i) @ '':''
     @ pad (randomInt e 0 59 (i + 1)) @ '':'' @ pad (randomInt e 0 59 (i + 2))"

subsection \<open>Fill mode\<close>

definition renderMessage :: "config \<Rightarrow> int \<Rightarrow> string \<Rightarrow> string" where
  "renderMessage cfg n isoStr =
     replace_js (replace_js (COMMIT_MESSAGE cfg) ''{n}'' (String_js n)) ''{date}'' isoStr"

definition fillCommit :: "config \<Rightarrow> env \<Rightarrow> entry \<Rightarrow> nat \<Rightarrow> int \<Rightarrow> world \<Rightarrow> nat outcome" where
  "fillCommit cfg e ent totalCommits n w =
     andThen (makeCommit cfg e (formatGitDate e (date ent) (draws w))
                (renderMessage cfg n (iso ent)) (w\<lparr>draws := draws w + 3\<rparr>))
       (\<lambda>_ w'. Ok (totalCommits + 1) w')"

definition fillDay ::
  "config \<Rightarrow> env \<Rightarrow> nat \<times> nat \<Rightarrow> entry \<Rightarrow> world \<Rightarrow> (nat \<times> nat) outcome" where
  "fillDay cfg e totals ent w =
     andThen
       (forEach
          [1..randomInt e (MIN_COMMITS_PER_DAY cfg) (MAX_COMMITS_PER_DAY cfg) (draws w)]
          (fillCommit cfg e ent) (fst totals) (w\<lparr>draws := Suc (draws w)\<rparr>))
       (\<lambda>totalCommits w'.
          Ok (totalCommits, snd totals + 1)
             (if (snd totals + 1) mod 30 = 0
              then console_log (FillProgress (snd totals + 1) totalCommits) w' else w'))"

definition runFillMode :: "config \<Rightarrow> env \<Rightarrow> world \<Rightarrow> unit outcome" where
  "runFillMode cfg e w =
     andThen
       (forEach (dayRange (tz e) (START_DATE cfg) (END_DATE cfg)) (fillDay cfg e) (0, 0)
          (console_log (FillDensity (MIN_COMMITS_PER_DAY cfg) (MAX_COMMITS_PER_DAY cfg))
             (console_log (FillRange (START_DATE cfg) (END_DATE cfg))
                (console_log FillHeader w))))
       (\<lambda>totals w'. Ok () (console_log (FillDone (fst totals) (snd totals)) w'))"

subsection \<open>Pattern mode\<close>

text \<open>
  \<open>pattern[day][week]\<close>: reading a row the pattern lacks throws a \<open>TypeError\<close>; a
  column the row lacks is \<open>undefined\<close>, which is not \<open>"#"\<close>.
\<close>

definition patternCommit ::
  "config \<Rightarrow> env \<Rightarrow> string \<Rightarrow> timeval \<Rightarrow> nat \<Rightarrow> nat \<Rightarrow> world \<Rightarrow> nat outcome" where
  "patternCommit cfg e patternName target totalCommits n w =
     andThen (makeCommit cfg e (formatGitDate e target (draws w))
                (''Pattern \"'' @ patternName @ ''\" commit #'' @ String_js (int n + 1)
                 @ '' on '' @ take 10 (toISOString target))
                (w\<lparr>draws := draws w + 3\<rparr>))
       (\<lambda>_ w'. Ok (totalCommits + 1) w')"

definition patternCell ::
  "config \<Rightarrow> env \<Rightarrow> string \<Rightarrow> pattern \<Rightarrow> nat \<Rightarrow> nat \<Rightarrow> nat \<Rightarrow> world \<Rightarrow> nat outcome" where
  "patternCell cfg e patternName pat week totalCommits day w =
     (if length pat \<le> day then Thrown TypeError w
      else if \<not> (week < length (pat ! day) \<and> pat ! day ! week = CHR ''#'')
      then Ok totalCommits w
      else forEach [0..<nat (PATTERN_COMMITS cfg)]
             (patternCommit cfg e patternName
                (addDays (tz e) (localMidnight (tz e) (PATTERN_START_DATE cfg))
                   (int week * 7 + int day)))
             totalCommits w)"

definition patternWeek ::
  "config \<Rightarrow> env \<Rightarrow> string \<Rightarrow> pattern \<Rightarrow> nat \<Rightarrow> nat \<Rightarrow> world \<Rightarrow> nat outcome" where
  "patternWeek cfg e patternName pat totalCommits week w =
     forEach [0..<7] (patternCell cfg e patternName pat week) totalCommits w"

text \<open>The loops of \<open>runPatternMode\<close>, from \<open>pattern[0].length\<close> to the last message.\<close>

definition drawPattern :: "config \<Rightarrow> env \<Rightarrow> string \<Rightarrow> pattern \<Rightarrow> world \<Rightarrow> unit outcome" where
  "drawPattern cfg e patternName pat w =
     (case pat of
        [] \<Rightarrow> Thrown TypeError w
      | row0 # _ \<Rightarrow>
          andThen (forEach [0..<length row0] (patternWeek cfg e patternName pat) 0 w)
            (\<lambda>totalCommits w'. Ok () (console_log (PatternDone totalCommits) w')))"

text \<open>\<open>(process.argv[3] || "HI").toUpperCase()\<close>.\<close>

definition patternNameOf :: "string list \<Rightarrow> string" where
  "patternNameOf argv =
     toUpperCase (case nth_opt argv 3 of None \<Rightarrow> ''HI''
                  | Some a \<Rightarrow> if a = [] then ''HI'' else a)"

definition runPatternMode :: "config \<Rightarrow> env \<Rightarrow> string list \<Rightarrow> world \<Rightarrow> unit outcome" where
  "runPatternMode cfg e argv w =
     (case map_of PATTERNS (patternNameOf argv) of
        None \<Rightarrow>
          Exited 1
            (console_error (AvailablePatterns (join_js '', '' (map fst PATTERNS)))
               (console_error (UnknownPattern (patternNameOf argv)) w))
      | Some pat \<Rightarrow>
          drawPattern cfg e (patternNameOf argv) pat
            (console_log (PatternPerCell (PATTERN_COMMITS cfg))
               (console_log (PatternStart (PATTERN_START_DATE cfg))
                  (console_log (PatternHeader (patternNameOf argv)) w))))"

subsection \<open>The entry point\<close>

definition ensureRepo :: "env \<Rightarrow> world \<Rightarrow> unit outcome" where
  "ensureRepo e w =
     andThen (external e (\<lambda>w. w) w)
       (\<lambda>_ w1. if isRepo w1 then Ok () w1
          else external e (\<lambda>w. w\<lparr>isRepo := True\<rparr>) (console_log InitialisingRepo w1))"

text \<open>
  The mode: \<open>modeFlag\<close> is the first argument that starts with \<open>--mode\<close>, \<open>modeArg\<close> the
  argument after the first one that is \<open>--mode\<close> (the argument 0 when there is none, since
  \<open>indexOf\<close> is then \<open>-1\<close>).
\<close>

definition parseMode :: "string list \<Rightarrow> string" where
  "parseMode argv =
     (case find (\<lambda>a. startsWith a ''--mode'') argv of
        None \<Rightarrow> ''fill''
      | Some modeFlag \<Rightarrow>
          toLowerCase (case nth_opt argv (indexOf argv ''--mode'' + 1) of
                         None \<Rightarrow> ''fill''
                       | Some modeArg \<Rightarrow> if modeArg = [] then ''fill'' else modeArg))"

definition main :: "config \<Rightarrow> env \<Rightarrow> string list \<Rightarrow> world \<Rightarrow> unit outcome" where
  "main cfg e argv w =
     andThen (ensureRepo e (console_log BannerRuleBlank (console_log BannerTitle
                (console_log BannerRule w))))
       (\<lambda>_ w1.
          andThen
            (if parseMode argv = ''fill'' then runFillMode cfg e w1
             else if parseMode argv = ''pattern'' then runPatternMode cfg e argv w1
             else Exited 1 (console_error (UnknownMode (parseMode argv)) w1))
            (\<lambda>_ w2. Ok () (console_log NextPush (console_log NextBranch
                       (console_log NextRemote (console_log NextSteps w2))))))"

text \<open>
  The whole run, \<open>main().catch(...)\<close>: the exit code and the final world. A run that
  returns ends with code 0; an exception is reported on the error stream and ends the
  process with code 1.
\<close>

definition program :: "config \<Rightarrow> env \<Rightarrow> string list \<Rightarrow> world \<Rightarrow> int \<times> world" where
  "program cfg e argv w =
     (case main cfg e argv w of
        Ok _ w' \<Rightarrow> (0, w')
      | Exited c w' \<Rightarrow> (c, w')
      | Thrown x w' \<Rightarrow> (1, console_error (FatalError x) w'))"

subsection \<open>Vocabulary of the properties\<close>

text \<open>
  \<open>gitDate D h m s\<close> is the timestamp \<open>YYYY-MM-DD HH:MM:SS\<close> that \<open>formatGitDate\<close>
  writes for the calendar day \<open>D\<close> and the time \<open>h:m:s\<close>; a commit is dated on \<open>D\<close> when
  its author date and its committer date are one such timestamp. \<open>wrote cfg w w' cs\<close>
  says that from \<open>w\<close> to \<open>w'\<close> the commits \<open>cs\<close> were added to the history, their lines
  were appended to the activity file, and nothing was written to the error stream.
  \<open>nofail e\<close> says that no call to the file system or to git throws.
\<close>

definition gitDate :: "day \<Rightarrow> int \<Rightarrow> int \<Rightarrow> int \<Rightarrow> string" where
  "gitDate D h m s =
     String_js (fst (civil D)) @ ''-'' @ pad (fst (snd (civil D))) @ ''-''
     @ pad (snd (snd (civil D))) @ '' '' @ pad h @ '':'' @ pad m @ '':'' @ pad s"

definition datedOn :: "commit \<Rightarrow> day \<Rightarrow> bool" where
  "datedOn c D \<longleftrightarrow>
     (\<exists>h m s. authorDate c = gitDate D h m s \<and> committerDate c = gitDate D h m s)"

definition lineOf :: "commit \<Rightarrow> string" where
  "lineOf c = activityLine (message c) (authorDate c)"

definition wrote :: "config \<Rightarrow> world \<Rightarrow> world \<Rightarrow> commit list \<Rightarrow> bool" where
  "wrote cfg w w' cs \<longleftrightarrow>
     commits w' = commits w @ cs
     \<and> files w' = foldl (\<lambda>fs c. appendTo fs (ACTIVITY_FILE cfg) (lineOf c)) (files w) cs
     \<and> stderr w' = stderr w"

definition nofail :: "env \<Rightarrow> bool" where
  "nofail e \<longleftrightarrow> (\<forall>n. \<not> extFail e n)"

text \<open>
  The text of a file (empty when the file does not exist), the line breaks of a text, and
  the world a result leaves.
\<close>

definition fileText :: "world \<Rightarrow> string \<Rightarrow> string" where
  "fileText w p = (case files w p of None \<Rightarrow> [] | Some c \<Rightarrow> c)"

definition lineBreaks :: "string \<Rightarrow> nat" where
  "lineBreaks s = length (filter (\<lambda>c. c = CHR 0x0A) s)"

definition worldOf :: "'a outcome \<Rightarrow> world" where
  "worldOf r = (case r of Ok a w \<Rightarrow> w | Thrown x w \<Rightarrow> w | Exited c w \<Rightarrow> w)"

text \<open>
  The lit cells of a pattern, and the days pattern mode is to commit on: for every week
  (column) and every weekday (row) whose cell is lit, \<open>c\<close> times the day
  \<open>start + (7 * week + weekday)\<close>, in the order of the loops.
\<close>

definition litCells :: "pattern \<Rightarrow> nat" where
  "litCells pat = length (filter (\<lambda>c. c = CHR ''#'') (concat pat))"

definition patternDays :: "pattern \<Rightarrow> day \<Rightarrow> nat \<Rightarrow> day list" where
  "patternDays pat start c =
     concat (map (\<lambda>week. concat (map (\<lambda>day.
        if pat ! day ! week = CHR ''#'' then replicate c (start + (7 * int week + int day))
        else []) [0..<7])) [0..<length (pat ! 0)])"

text \<open>A command-line argument that holds a path separator, as the executable path does.\<close>

definition isPath :: "string \<Rightarrow> bool" where
  "isPath s \<longleftrightarrow> CHR ''/'' \<in> set s \<or> CHR 0x5C \<in> set s"

text \<open>
  Concrete inputs: an environment in UTC where \<open>Math.random\<close> always returns 0.5 and no
  call fails, an empty world, the range of the single day 2025-01-01 with two commits a
  day, and a range whose start is after its end. \<open>kolkata\<close> is the zone of India
  (UTC+05:30 all year). \<open>cairo2025\<close> is the zone of Egypt in 2025: UTC+02:00, and
  UTC+03:00 from 2025-04-25, when the clocks go from 00:00 to 01:00 (the instant
  2025-04-24T22:00:00Z), to 2025-10-30T21:00:00Z; \<open>cfgCairo\<close> is the range from
  2025-04-24 to 2025-04-26 with one commit a day.
\<close>

definition kolkata :: zone where
  "kolkata = fixedZone 330"

definition cairo2025 :: zone where
  "cairo2025 = \<lparr>stdOffset = 120, dstPeriods = [(1745532000000, 1761858000000)]\<rparr>"

definition env0 :: env where
  "env0 = \<lparr>tz = fixedZone 0, rnd = (\<lambda>_. 1 / 2), extFail = (\<lambda>_. False), procEnv = Map.empty,
     wallClock = ''2026-01-01 00:00:00''\<rparr>"

definition world0 :: world where
  "world0 = \<lparr>files = Map.empty, staged = Map.empty, commits = [], isRepo = False,
     stdout = [], stderr = [], draws = 0, calls = 0\<rparr>"

definition cfgOneDay :: config where
  "cfgOneDay = CONFIG\<lparr>END_DATE := 20089, MIN_COMMITS_PER_DAY := 2, MAX_COMMITS_PER_DAY := 2\<rparr>"

definition cfgBackwards :: config where
  "cfgBackwards = CONFIG\<lparr>START_DATE := 20453, END_DATE := 20089\<rparr>"

definition envCairo :: env where
  "envCairo = env0\<lparr>tz := cairo2025\<rparr>"

definition cfgCairo :: config where
  "cfgCairo = CONFIG\<lparr>START_DATE := 20202, END_DATE := 20204,
     MIN_COMMITS_PER_DAY := 1, MAX_COMMITS_PER_DAY := 1\<rparr>"

text \<open>
  Command lines (\<open>process.argv\<close>: the executable, the script, then the arguments):
  \<open>node index.js\<close>, \<open>node index.js --mode pattern\<close>,
  \<open>node index.js x X --mode pattern\<close> and \<open>node index.js --mode=pattern\<close>.
\<close>

definition argvPlain :: "string list" where
  "argvPlain = [''/usr/bin/node'', ''/repo/index.js'']"

definition argvPattern :: "string list" where
  "argvPattern = [''/usr/bin/node'', ''/repo/index.js'', ''--mode'', ''pattern'']"

definition argvPatternX :: "string list" where
  "argvPatternX = [''/usr/bin/node'', ''/repo/index.js'', ''x'', ''X'', ''--mode'', ''pattern'']"

definition argvModeEquals :: "string list" where
  "argvModeEquals = [''/usr/bin/node'', ''/repo/index.js'', ''--mode=pattern'']"

section \<open>Properties\<close>

subsection \<open>The pattern compiler\<close>

lemma partsOf_one: "partsOf [g] = [g]"
  by (simp add: partsOf_def)

lemma partsOf_two: "partsOf [g1, g2] = [g1, spacer, g2]"
  by (simp add: partsOf_def)

lemma length_combinePatterns: "length (combinePatterns letters) = 7"
  by (simp add: combinePatterns_def)

lemma combinePatterns_nth:
  "r < 7 \<Longrightarrow>
   combinePatterns letters ! r = concat (map (\<lambda>p. rowAt p r) (partsOf letters))"
  by (simp add: combinePatterns_def del: upt_Suc)

lemma rowAt_inside: "r < length p \<Longrightarrow> rowAt p r = p ! r"
  by (simp add: rowAt_def)

lemma spacer_row: "r < 7 \<Longrightarrow> rowAt spacer r = ''.''"
proof -
  assume "r < 7"
  then have "r \<in> {0, 1, 2, 3, 4, 5, 6}" by auto
  then show ?thesis by (auto simp: rowAt_def spacer_def)
qed

lemma combine_two_row:
  assumes "length g1 = 7" and "length g2 = 7" and "r < 7"
  shows "combinePatterns [g1, g2] ! r = g1 ! r @ ''.'' @ g2 ! r"
  using assms by (simp add: combinePatterns_nth partsOf_two spacer_row rowAt_inside)

lemma combine_single: "combinePatterns [g] = take 7 g @ replicate (7 - length g) []"
proof (rule nth_equalityI)
  show "length (combinePatterns [g]) = length (take 7 g @ replicate (7 - length g) [])"
    by (simp add: length_combinePatterns)
next
  fix i
  assume "i < length (combinePatterns [g])"
  then have "i < 7"
    by (simp add: length_combinePatterns)
  then show "combinePatterns [g] ! i = (take 7 g @ replicate (7 - length g) []) ! i"
    by (simp add: combinePatterns_nth partsOf_one rowAt_def nth_append)
qed

text \<open>
  C5. Two grids of seven rows, of widths \<open>w1\<close> and \<open>w2\<close>, are combined into a grid of
  seven rows of width \<open>w1 + 1 + w2\<close>; in every row the cell of column \<open>w1\<close> is blank,
  the columns before it are those of the first grid and the columns after it are those
  of the second grid, in their order.
\<close>

theorem combinePatterns_two_grids:
  assumes "length g1 = 7" and "length g2 = 7"
    and "\<forall>row \<in> set g1. length row = w1" and "\<forall>row \<in> set g2. length row = w2"
    and "r < 7"
  shows "length (combinePatterns [g1, g2]) = 7
    \<and> length (combinePatterns [g1, g2] ! r) = w1 + 1 + w2
    \<and> combinePatterns [g1, g2] ! r ! w1 = CHR ''.''
    \<and> (\<forall>c < w1. combinePatterns [g1, g2] ! r ! c = g1 ! r ! c)
    \<and> (\<forall>c < w2. combinePatterns [g1, g2] ! r ! (w1 + 1 + c) = g2 ! r ! c)"
proof -
  have l1: "length (g1 ! r) = w1" and l2: "length (g2 ! r) = w2"
    using assms by auto
  have row: "combinePatterns [g1, g2] ! r = g1 ! r @ ''.'' @ g2 ! r"
    using assms by (simp add: combine_two_row)
  show ?thesis
    using l1 l2 by (simp add: row length_combinePatterns nth_append)
qed

theorem combinePatterns_two_grids_witness:
  "length pat_H = 7 \<and> length pat_I = 7
   \<and> length (combinePatterns [pat_H, pat_I]) = 7
   \<and> length (combinePatterns [pat_H, pat_I] ! 3) = 3 + 1 + 3
   \<and> combinePatterns [pat_H, pat_I] ! 3 ! 3 = CHR ''.''
   \<and> combinePatterns [pat_H, pat_I] ! 3 ! 0 = pat_H ! 3 ! 0
   \<and> combinePatterns [pat_H, pat_I] ! 3 ! (3 + 1 + 1) = pat_I ! 3 ! 1"
proof -
  have h: "length pat_H = 7" "length pat_I = 7"
    "\<forall>row \<in> set pat_H. length row = 3" "\<forall>row \<in> set pat_I. length row = 3"
    by (simp_all add: pat_H_def pat_I_def)
  have r: "(3::nat) < 7" by simp
  note t = combinePatterns_two_grids [OF h r]
  from t have left: "\<forall>c < 3. combinePatterns [pat_H, pat_I] ! 3 ! c = pat_H ! 3 ! c"
    by blast
  from t have right:
    "\<forall>c < 3. combinePatterns [pat_H, pat_I] ! 3 ! (3 + 1 + c) = pat_I ! 3 ! c"
    by blast
  have c0: "combinePatterns [pat_H, pat_I] ! 3 ! 0 = pat_H ! 3 ! 0"
    using left [rule_format, of 0] by simp
  have c1: "combinePatterns [pat_H, pat_I] ! 3 ! (3 + 1 + 1) = pat_I ! 3 ! 1"
    using right [rule_format, of 1] by simp
  show ?thesis
    using t h(1,2) c0 c1 by simp
qed

text \<open>
  C7 as the specification states it asks for an explicit failure on a grid that has not
  seven rows. The compiler has no such check: a grid of eight rows is cut to its first
  seven, and the result is an ordinary grid.
\<close>

theorem combinePatterns_truncates_counterexample:
  "length [''#'', ''#'', ''#'', ''#'', ''#'', ''#'', ''#'', ''.''] \<noteq> 7
   \<and> combinePatterns [[''#'', ''#'', ''#'', ''#'', ''#'', ''#'', ''#'', ''.'']]
       = [''#'', ''#'', ''#'', ''#'', ''#'', ''#'', ''#'']"
  by (simp add: combine_single)

lemma partsOf_enumerate_pos:
  "0 < n \<Longrightarrow>
   concat (map (\<lambda>(i, letter). (if 0 < i then [spacer] else []) @ [letter]) (enumerate n ls))
     = concat (map (\<lambda>x. [spacer, x]) ls)"
  by (induction ls arbitrary: n) simp_all

lemma partsOf_Cons: "partsOf (l # ls) = l # concat (map (\<lambda>x. [spacer, x]) ls)"
  by (simp add: partsOf_def partsOf_enumerate_pos)

lemma join_js_Cons: "join_js sep (x # xs) = x @ concat (map (\<lambda>y. sep @ y) xs)"
  by (induction xs arbitrary: x) simp_all

lemma spaced_rows:
  "r < 7 \<Longrightarrow>
   concat (map (\<lambda>p. rowAt p r) (concat (map (\<lambda>x. [spacer, x]) ls)))
     = concat (map (\<lambda>g. ''.'' @ rowAt g r) ls)"
  by (induction ls) (simp_all add: spacer_row)

lemma combine_row_join:
  assumes "r < 7"
  shows "concat (map (\<lambda>p. rowAt p r) (partsOf letters))
     = join_js ''.'' (map (\<lambda>g. rowAt g r) letters)"
proof (cases letters)
  case Nil
  then show ?thesis by (simp add: partsOf_def)
next
  case (Cons l ls)
  then show ?thesis
    using assms by (simp add: partsOf_Cons join_js_Cons spaced_rows o_def)
qed

lemma combinePatterns_rows:
  "combinePatterns letters = map (\<lambda>r. join_js ''.'' (map (\<lambda>g. rowAt g r) letters)) [0..<7]"
  unfolding combinePatterns_def
  by (rule map_cong [OF refl]) (simp add: combine_row_join)

lemma rowAt_seven_rows:
  "r < 7 \<Longrightarrow> rowAt (take 7 g @ replicate (7 - length g) []) r = rowAt g r"
  by (auto simp: rowAt_def nth_append)

lemma combinePatterns_seven_rows:
  "combinePatterns (map (\<lambda>g. take 7 g @ replicate (7 - length g) []) letters)
     = combinePatterns letters"
  unfolding combinePatterns_rows
  by (rule map_cong [OF refl]) (simp add: o_def rowAt_seven_rows)

text \<open>
  C7, amended. The compiler never signals a wrong number of rows. Whatever its inputs,
  and however many rows each of them has, it returns seven rows; row \<open>r\<close> of the result
  is row \<open>r\<close> of every input in order, joined by a blank cell, where a row that an
  input lacks counts as the empty string; and the rows of an input beyond the seventh
  are dropped: the result is that of the inputs cut or filled to seven rows.
\<close>

theorem combinePatterns_no_row_check:
  "length (combinePatterns letters) = 7
   \<and> combinePatterns letters
       = map (\<lambda>r. join_js ''.'' (map (\<lambda>g. if r < length g then g ! r else []) letters))
           [0..<7]
   \<and> combinePatterns letters
       = combinePatterns (map (\<lambda>g. take 7 g @ replicate (7 - length g) []) letters)"
proof -
  have "(\<lambda>r. join_js ''.'' (map (\<lambda>g. if r < length g then g ! r else []) letters))
      = (\<lambda>r. join_js ''.'' (map (\<lambda>g. rowAt g r) letters))"
    by (simp add: rowAt_def)
  then show ?thesis
    using combinePatterns_rows [of letters] combinePatterns_seven_rows [of letters]
    by (simp add: length_combinePatterns)
qed

subsection \<open>The day sequencer\<close>

text \<open>
  C1. For a valid range the sequencer is to yield the days from the start to the end, the
  first entry being the start date. In a zone east of UTC (here India, UTC+05:30) the
  entry of 2025-01-01 (day 20089) is local midnight, 2024-12-31T18:30:00Z, and its
  \<open>iso\<close> field, which is cut from the UTC rendering, names the day before.
\<close>

theorem dayRange_iso_east_of_UTC:
  "dayRange kolkata 20089 20089 = [\<lparr>date = 1735669800000, iso = ''2024-12-31''\<rparr>]"
  by code_simp

subsection \<open>Dates, results and loops\<close>

lemma offsetAt_bounds: "stdOffset z \<le> offsetAt z t" "offsetAt z t \<le> stdOffset z + 60"
  by (simp_all add: offsetAt_def)

lemma offsetOfLocal_bounds:
  "stdOffset z \<le> offsetOfLocal z l" "offsetOfLocal z l \<le> stdOffset z + 60"
  by (simp_all add: offsetOfLocal_def)

lemma Day_within: "0 \<le> r \<Longrightarrow> r < msPerDay \<Longrightarrow> Day (D * msPerDay + r) = D"
  by (simp add: Day_def msPerDay_def div_pos_pos_trivial)

lemma addDays_local: "addDays z t n = UTC z (LocalTime z t + n * msPerDay)"
  by (simp add: addDays_def MakeDate_def Day_def TimeWithinDay_def algebra_simps)

text \<open>
  A local time read as an instant and shown again is itself, or one hour later when the
  clocks skip it.
\<close>

lemma LocalTime_UTC:
  "LocalTime z (UTC z l) = l \<or> LocalTime z (UTC z l) = l + 3600000"
proof (cases "inDST z (l - (stdOffset z + 60) * msPerMinute)")
  case True
  then show ?thesis
    by (simp add: LocalTime_def UTC_def offsetOfLocal_def offsetAt_def)
next
  case False
  then show ?thesis
    by (simp add: LocalTime_def UTC_def offsetOfLocal_def offsetAt_def msPerMinute_def)
qed

lemma LocalTime_localMidnight:
  "LocalTime z (localMidnight z D) = D * msPerDay
   \<or> LocalTime z (localMidnight z D) = D * msPerDay + 3600000"
  using LocalTime_UTC [of z "D * msPerDay"] by (simp add: localMidnight_def MakeDate_def)

lemma localDay_localMidnight: "Day (LocalTime z (localMidnight z D)) = D"
  using LocalTime_localMidnight [of z D] Day_within [of 0 D] Day_within [of 3600000 D]
  by (auto simp: msPerDay_def)

text \<open>
  The date of a pattern cell: \<open>n\<close> days after the start date, in every zone (the local
  time of the instant is at most two hours past midnight).
\<close>

lemma localDay_addDays:
  "Day (LocalTime z (addDays z (localMidnight z D) n)) = D + n"
proof -
  let ?l = "LocalTime z (localMidnight z D) + n * msPerDay"
  have l: "?l = (D + n) * msPerDay \<or> ?l = (D + n) * msPerDay + 3600000"
    using LocalTime_localMidnight [of z D] by (auto simp: algebra_simps)
  have "LocalTime z (UTC z ?l) = ?l \<or> LocalTime z (UTC z ?l) = ?l + 3600000"
    by (rule LocalTime_UTC)
  with l have "LocalTime z (UTC z ?l) = (D + n) * msPerDay + 0
      \<or> LocalTime z (UTC z ?l) = (D + n) * msPerDay + 3600000
      \<or> LocalTime z (UTC z ?l) = (D + n) * msPerDay + 7200000"
    by auto
  then show ?thesis
    unfolding addDays_local
    using Day_within [of 0 "D + n"] Day_within [of 3600000 "D + n"]
      Day_within [of 7200000 "D + n"]
    by (auto simp: msPerDay_def)
qed

lemma localMidnight_strict: "e < s \<Longrightarrow> localMidnight z e < localMidnight z s"
  using offsetOfLocal_bounds [of z "e * msPerDay"] offsetOfLocal_bounds [of z "s * msPerDay"]
  by (simp add: localMidnight_def UTC_def MakeDate_def msPerDay_def msPerMinute_def)

lemma dayRange_empty: "e < s \<Longrightarrow> dayRange z s e = []"
  unfolding dayRange_def
  by (subst dayRange_loop.simps) (simp add: localMidnight_strict not_le)

text \<open>In a zone of constant offset a step is exactly one day.\<close>

lemma LocalTime_fixed: "LocalTime (fixedZone m) t = t + m * msPerMinute"
  by (simp add: LocalTime_def offsetAt_def inDST_def fixedZone_def)

lemma UTC_fixed: "UTC (fixedZone m) l = l - m * msPerMinute"
  by (simp add: UTC_def offsetOfLocal_def inDST_def fixedZone_def)

lemma addDays_eq: "addDays (fixedZone m) t n = t + n * msPerDay"
  by (simp add: addDays_local LocalTime_fixed UTC_fixed)

lemma localMidnight_eq: "localMidnight (fixedZone m) D = D * msPerDay - m * msPerMinute"
  by (simp add: localMidnight_def UTC_fixed MakeDate_def)

lemma addDays_localMidnight:
  "addDays (fixedZone m) (localMidnight (fixedZone m) D) n = localMidnight (fixedZone m) (D + n)"
  by (simp add: addDays_eq localMidnight_eq algebra_simps)

lemma localMidnight_le:
  "localMidnight (fixedZone m) s \<le> localMidnight (fixedZone m) e \<longleftrightarrow> s \<le> e"
  by (simp add: localMidnight_eq msPerDay_def)

lemma dayRange_loop_eq:
  "dayRange_loop (fixedZone m) (localMidnight (fixedZone m) s) (localMidnight (fixedZone m) e) =
     map (\<lambda>D. \<lparr>date = localMidnight (fixedZone m) D,
               iso = take 10 (toISOString (localMidnight (fixedZone m) D))\<rparr>)
       [s..e]"
proof (induction "nat (e - s + 1)" arbitrary: s)
  case 0
  then have "e < s" by simp
  then show ?case
    by (subst dayRange_loop.simps) (simp add: localMidnight_le)
next
  case (Suc n)
  then have le: "s \<le> e" and n: "n = nat (e - (s + 1) + 1)" by simp_all
  have up: "[s..e] = s # [s + 1..e]"
    using le by (simp add: upto_rec1)
  show ?case
    using le Suc.hyps(1) [OF n]
    by (subst dayRange_loop.simps) (simp add: localMidnight_le addDays_localMidnight up)
qed

lemma dayRange_eq:
  "dayRange (fixedZone m) s e =
     map (\<lambda>D. \<lparr>date = localMidnight (fixedZone m) D,
               iso = take 10 (toISOString (localMidnight (fixedZone m) D))\<rparr>)
       [s..e]"
  by (simp add: dayRange_def dayRange_loop_eq)

lemma dayRange_local_days:
  "map (\<lambda>ent. Day (LocalTime (fixedZone m) (date ent))) (dayRange (fixedZone m) s e) = [s..e]"
  by (simp add: dayRange_eq localDay_localMidnight o_def)

lemma external_ok:
  "nofail e \<Longrightarrow> external e f w = Ok () (f (w\<lparr>calls := Suc (calls w)\<rparr>))"
  by (simp add: external_def nofail_def)

lemma andThen_Ok [simp]: "andThen (Ok a w) f = f a w"
  by (simp add: andThen_def)

lemma andThen_Thrown [simp]: "andThen (Thrown x w) f = Thrown x w"
  by (simp add: andThen_def)

lemma andThen_Exited [simp]: "andThen (Exited c w) f = Exited c w"
  by (simp add: andThen_def)

lemma makeCommit_ok:
  assumes "nofail e"
  shows "makeCommit cfg e dateStr msg w =
    Ok () (w\<lparr>files := appendTo (files w) (ACTIVITY_FILE cfg) (activityLine msg dateStr),
             staged := (staged w)(ACTIVITY_FILE cfg :=
               appendTo (files w) (ACTIVITY_FILE cfg) (activityLine msg dateStr)
                 (ACTIVITY_FILE cfg)),
             commits := commits w @
               [\<lparr>message = msg, authorDate = dateStr, committerDate = dateStr,
                 snapshot = (staged w)(ACTIVITY_FILE cfg :=
                   appendTo (files w) (ACTIVITY_FILE cfg) (activityLine msg dateStr)
                     (ACTIVITY_FILE cfg))\<rparr>],
             calls := calls w + 3\<rparr>)"
  using assms
  by (simp add: makeCommit_def external_ok appendFileSync_def git_add_def git_commit_def)

lemma wrote_refl: "wrote cfg w w []"
  by (simp add: wrote_def)

lemma wrote_trans:
  "wrote cfg w w1 cs \<Longrightarrow> wrote cfg w1 w2 cs' \<Longrightarrow> wrote cfg w w2 (cs @ cs')"
  by (simp add: wrote_def)

lemma wrote_draws [simp]: "wrote cfg (w\<lparr>draws := n\<rparr>) w' cs = wrote cfg w w' cs"
  by (simp add: wrote_def)

lemma wrote_log_left [simp]: "wrote cfg (console_log l w) w' cs = wrote cfg w w' cs"
  by (simp add: wrote_def console_log_def)

lemma wrote_log_right [simp]: "wrote cfg w (console_log l w') cs = wrote cfg w w' cs"
  by (simp add: wrote_def console_log_def)

lemma makeCommit_wrote:
  assumes "nofail e"
  shows "\<exists>w'. makeCommit cfg e dateStr msg w = Ok () w'
    \<and> wrote cfg w w'
        [\<lparr>message = msg, authorDate = dateStr, committerDate = dateStr,
          snapshot = staged w'\<rparr>]"
  using assms by (simp add: makeCommit_ok wrote_def lineOf_def)

lemma forEach_wrote:
  assumes "\<And>acc x w. x \<in> set xs \<Longrightarrow>
     \<exists>acc' w' cs. body acc x w = Ok acc' w' \<and> wrote cfg w w' cs \<and> list_all2 R cs (f x)"
  shows "\<exists>acc' w' cs. forEach xs body acc w = Ok acc' w' \<and> wrote cfg w w' cs
     \<and> list_all2 R cs (concat (map f xs))"
  using assms
proof (induction xs arbitrary: acc w)
  case Nil
  then show ?case by (simp add: wrote_refl)
next
  case (Cons x xs)
  from Cons.prems [of x acc w] obtain acc1 w1 cs1 where
    b: "body acc x w = Ok acc1 w1" "wrote cfg w w1 cs1" "list_all2 R cs1 (f x)"
    by auto
  from Cons.IH [of acc1 w1] Cons.prems obtain acc2 w2 cs2 where
    r: "forEach xs body acc1 w1 = Ok acc2 w2" "wrote cfg w1 w2 cs2"
       "list_all2 R cs2 (concat (map f xs))"
    by auto
  show ?case
    using b r by (auto simp: list_all2_appendI intro: wrote_trans)
qed

lemma formatGitDate_gitDate:
  "formatGitDate e t i =
     gitDate (Day (LocalTime (tz e) t)) (randomInt e 9 21 i) (randomInt e 0 59 (i + 1))
       (randomInt e 0 59 (i + 2))"
  by (simp add: formatGitDate_def gitDate_def getFullYear_def getMonth_def getDate_def)

subsection \<open>Fill mode, pattern mode and the commit writer\<close>

lemma randomInt_same:
  assumes "0 \<le> rnd e i" and "rnd e i < 1"
  shows "randomInt e k k i = k"
proof -
  have "\<lfloor>rnd e i\<rfloor> = 0"
    using assms by (simp add: floor_eq_iff)
  then show ?thesis
    by (simp add: randomInt_def)
qed

lemma fillCommit_wrote:
  assumes "nofail e"
  shows "\<exists>acc' w' cs. fillCommit cfg e ent acc n w = Ok acc' w' \<and> wrote cfg w w' cs
    \<and> list_all2 datedOn cs [Day (LocalTime (tz e) (date ent))]"
proof -
  from makeCommit_wrote [OF assms, of cfg "formatGitDate e (date ent) (draws w)"
      "renderMessage cfg n (iso ent)" "w\<lparr>draws := draws w + 3\<rparr>"]
  obtain w' where m: "makeCommit cfg e (formatGitDate e (date ent) (draws w))
      (renderMessage cfg n (iso ent)) (w\<lparr>draws := draws w + 3\<rparr>) = Ok () w'"
    and wr: "wrote cfg w w' [\<lparr>message = renderMessage cfg n (iso ent),
        authorDate = formatGitDate e (date ent) (draws w),
        committerDate = formatGitDate e (date ent) (draws w), snapshot = staged w'\<rparr>]"
    by auto
  have "datedOn \<lparr>message = renderMessage cfg n (iso ent),
        authorDate = formatGitDate e (date ent) (draws w),
        committerDate = formatGitDate e (date ent) (draws w), snapshot = staged w'\<rparr>
      (Day (LocalTime (tz e) (date ent)))"
    unfolding datedOn_def formatGitDate_gitDate by auto
  with m wr show ?thesis
    by (auto simp: fillCommit_def)
qed

lemma concat_empties: "concat (map (\<lambda>_. []) xs) = []"
  by (induction xs) simp_all

lemma fillDay_wrote:
  assumes "nofail e" and "\<forall>n. 0 \<le> rnd e n \<and> rnd e n < 1"
    and "MIN_COMMITS_PER_DAY cfg = k" and "MAX_COMMITS_PER_DAY cfg = k"
  shows "\<exists>acc' w' cs. fillDay cfg e acc ent w = Ok acc' w' \<and> wrote cfg w w' cs
    \<and> list_all2 datedOn cs (replicate (nat k) (Day (LocalTime (tz e) (date ent))))"
proof -
  have k: "randomInt e (MIN_COMMITS_PER_DAY cfg) (MAX_COMMITS_PER_DAY cfg) (draws w) = k"
    using assms by (simp add: randomInt_same)
  from forEach_wrote [of "[1..k]" "fillCommit cfg e ent" cfg datedOn
      "\<lambda>_. [Day (LocalTime (tz e) (date ent))]" "fst acc" "w\<lparr>draws := Suc (draws w)\<rparr>"]
    fillCommit_wrote [OF assms(1)]
  obtain acc1 w1 cs where
    f: "forEach [1..k] (fillCommit cfg e ent) (fst acc) (w\<lparr>draws := Suc (draws w)\<rparr>)
          = Ok acc1 w1"
    and wr: "wrote cfg w w1 cs"
    and d: "list_all2 datedOn cs (replicate (nat k) (Day (LocalTime (tz e) (date ent))))"
    by (auto simp: map_replicate_const)
  show ?thesis
    using f wr d by (auto simp: fillDay_def k)
qed

lemma runFillMode_wrote:
  assumes "nofail e" and "\<forall>n. 0 \<le> rnd e n \<and> rnd e n < 1"
    and "MIN_COMMITS_PER_DAY cfg = k" and "MAX_COMMITS_PER_DAY cfg = k"
  shows "\<exists>w' cs. runFillMode cfg e w = Ok () w' \<and> wrote cfg w w' cs
    \<and> list_all2 datedOn cs
         (concat (map (\<lambda>ent. replicate (nat k) (Day (LocalTime (tz e) (date ent))))
            (dayRange (tz e) (START_DATE cfg) (END_DATE cfg))))"
proof -
  let ?ds = "dayRange (tz e) (START_DATE cfg) (END_DATE cfg)"
  let ?f = "\<lambda>ent. replicate (nat k) (Day (LocalTime (tz e) (date ent)))"
  let ?w0 = "console_log (FillDensity (MIN_COMMITS_PER_DAY cfg) (MAX_COMMITS_PER_DAY cfg))
             (console_log (FillRange (START_DATE cfg) (END_DATE cfg))
                (console_log FillHeader w))"
  from forEach_wrote [of ?ds "fillDay cfg e" cfg datedOn ?f "(0, 0)" ?w0]
    fillDay_wrote [OF assms]
  obtain acc1 w1 cs where
    f: "forEach ?ds (fillDay cfg e) (0, 0) ?w0 = Ok acc1 w1"
    and wr: "wrote cfg w w1 cs"
    and d: "list_all2 datedOn cs (concat (map ?f ?ds))"
    by auto
  then show ?thesis
    by (auto simp: runFillMode_def)
qed

lemma foldl_appendTo_Nil: "wrote cfg w w' [] \<Longrightarrow> commits w' = commits w \<and> files w' = files w"
  by (simp add: wrote_def)

text \<open>
  In a zone of constant offset, with \<open>min = max = k\<close>, when \<open>Math.random\<close> returns
  values in \<open>[0, 1)\<close> and no call to the file system or to git fails, fill mode returns
  having added, for every day of the range in order, exactly \<open>k\<close> commits dated on that
  day; for \<open>k = 0\<close> the history and the activity file are unchanged.
\<close>

lemma fill_mode_constant_offset:
  assumes "nofail e" and "\<forall>n. 0 \<le> rnd e n \<and> rnd e n < 1"
    and "MIN_COMMITS_PER_DAY cfg = k" and "MAX_COMMITS_PER_DAY cfg = k"
    and "tz e = fixedZone m"
  shows "\<exists>w' cs. runFillMode cfg e w = Ok () w'
    \<and> commits w' = commits w @ cs
    \<and> files w' = foldl (\<lambda>fs c. appendTo fs (ACTIVITY_FILE cfg) (lineOf c)) (files w) cs
    \<and> list_all2 datedOn cs
         (concat (map (\<lambda>D. replicate (nat k) D) [START_DATE cfg..END_DATE cfg]))
    \<and> (k = 0 \<longrightarrow> commits w' = commits w \<and> files w' = files w)"
proof -
  have days: "concat (map (\<lambda>ent. replicate (nat k) (Day (LocalTime (tz e) (date ent))))
            (dayRange (tz e) (START_DATE cfg) (END_DATE cfg)))
      = concat (map (\<lambda>D. replicate (nat k) D) [START_DATE cfg..END_DATE cfg])"
    unfolding assms(5) by (simp add: dayRange_eq o_def localDay_localMidnight)
  from runFillMode_wrote [OF assms(1-4), of w] obtain w' cs where
    r: "runFillMode cfg e w = Ok () w'" and wr: "wrote cfg w w' cs"
    and d: "list_all2 datedOn cs
         (concat (map (\<lambda>D. replicate (nat k) D) [START_DATE cfg..END_DATE cfg]))"
    unfolding days by auto
  have "k = 0 \<longrightarrow> cs = []"
    using d by (auto simp: concat_empties)
  with r wr d show ?thesis
    by (auto simp: wrote_def)
qed

lemma count_row:
  "(\<Sum>w = 0..<length row. if row ! w = x then c else 0)
     = length (filter (\<lambda>a. a = x) row) * (c::nat)"
proof (induction row rule: rev_induct)
  case Nil
  then show ?case by simp
next
  case (snoc a row)
  have "(\<Sum>w = 0..<length row. if (row @ [a]) ! w = x then c else 0)
      = (\<Sum>w = 0..<length row. if row ! w = x then c else 0)"
    by (rule sum.cong) (simp_all add: nth_append)
  then show ?case
    using snoc by simp
qed

lemma length_patternDays:
  assumes "length pat = 7" and "\<forall>row \<in> set pat. length row = W"
  shows "length (patternDays pat start c) = litCells pat * c"
proof -
  let ?g = "\<lambda>week day. if pat ! day ! week = CHR ''#'' then c else (0::nat)"
  have W: "length (pat ! 0) = W" and rows: "\<And>day. day < 7 \<Longrightarrow> length (pat ! day) = W"
    using assms by auto
  have "length (patternDays pat start c)
      = (\<Sum>week = 0..<W. \<Sum>day = 0..<7. ?g week day)"
    unfolding patternDays_def W length_concat map_map o_def
    by (simp add: interv_sum_list_conv_sum_set_nat if_distrib [of length] del: upt_Suc
        cong: if_cong)
  also have "\<dots> = (\<Sum>day = 0..<7. \<Sum>week = 0..<W. ?g week day)"
    by (rule sum.swap)
  also have "\<dots> = (\<Sum>day = 0..<7. length (filter (\<lambda>a. a = CHR ''#'') (pat ! day)) * c)"
  proof (rule sum.cong)
    fix day assume "day \<in> {0..<7::nat}"
    then have "length (pat ! day) = W" using rows by simp
    then show "(\<Sum>week = 0..<W. ?g week day)
        = length (filter (\<lambda>a. a = CHR ''#'') (pat ! day)) * c"
      using count_row [of "pat ! day" "CHR ''#''" c] by simp
  qed simp
  also have "\<dots> = (\<Sum>day = 0..<length pat.
        map (\<lambda>row. length (filter (\<lambda>a. a = CHR ''#'') row)) pat ! day) * c"
    using assms(1) by (simp add: sum_distrib_right)
  also have "\<dots> = litCells pat * c"
    unfolding litCells_def filter_concat length_concat map_map o_def
    by (simp add: sum_list_sum_nth)
  finally show ?thesis .
qed

lemma patternCommit_wrote:
  assumes "nofail e"
  shows "\<exists>acc' w' cs. patternCommit cfg e name target acc n w = Ok acc' w'
    \<and> wrote cfg w w' cs \<and> list_all2 datedOn cs [Day (LocalTime (tz e) target)]"
proof -
  let ?msg = "''Pattern \"'' @ name @ ''\" commit #'' @ String_js (int n + 1)
      @ '' on '' @ take 10 (toISOString target)"
  from makeCommit_wrote [OF assms, of cfg "formatGitDate e target (draws w)" ?msg
      "w\<lparr>draws := draws w + 3\<rparr>"]
  obtain w' where m: "makeCommit cfg e (formatGitDate e target (draws w)) ?msg
      (w\<lparr>draws := draws w + 3\<rparr>) = Ok () w'"
    and wr: "wrote cfg w w' [\<lparr>message = ?msg,
        authorDate = formatGitDate e target (draws w),
        committerDate = formatGitDate e target (draws w), snapshot = staged w'\<rparr>]"
    by auto
  have "datedOn \<lparr>message = ?msg, authorDate = formatGitDate e target (draws w),
        committerDate = formatGitDate e target (draws w), snapshot = staged w'\<rparr>
      (Day (LocalTime (tz e) target))"
    unfolding datedOn_def formatGitDate_gitDate by auto
  with m wr show ?thesis
    by (auto simp: patternCommit_def)
qed

lemma patternCell_wrote:
  assumes "nofail e" and "day < length pat" and "week < length (pat ! day)"
  shows "\<exists>acc' w' cs. patternCell cfg e name pat week acc day w = Ok acc' w'
    \<and> wrote cfg w w' cs
    \<and> list_all2 datedOn cs
        (if pat ! day ! week = CHR ''#''
         then replicate (nat (PATTERN_COMMITS cfg))
                (PATTERN_START_DATE cfg + (7 * int week + int day))
         else [])"
proof (cases "pat ! day ! week = CHR ''#''")
  case False
  then show ?thesis
    using assms by (auto simp: patternCell_def wrote_refl)
next
  case True
  let ?target = "addDays (tz e) (localMidnight (tz e) (PATTERN_START_DATE cfg))
      (int week * 7 + int day)"
  have D: "Day (LocalTime (tz e) ?target) = PATTERN_START_DATE cfg + (7 * int week + int day)"
    by (simp add: localDay_addDays)
  from forEach_wrote [of "[0..<nat (PATTERN_COMMITS cfg)]"
      "patternCommit cfg e name ?target" cfg datedOn
      "\<lambda>_. [Day (LocalTime (tz e) ?target)]" acc w]
    patternCommit_wrote [OF assms(1)]
  obtain acc1 w1 cs where
    f: "forEach [0..<nat (PATTERN_COMMITS cfg)] (patternCommit cfg e name ?target) acc w
          = Ok acc1 w1"
    and wr: "wrote cfg w w1 cs"
    and d: "list_all2 datedOn cs
        (replicate (nat (PATTERN_COMMITS cfg)) (Day (LocalTime (tz e) ?target)))"
    by (auto simp: map_replicate_const)
  show ?thesis
    using True assms f wr d unfolding D by (auto simp: patternCell_def)
qed

lemma patternWeek_wrote:
  assumes "nofail e" and "length pat = 7" and "\<forall>row \<in> set pat. length row = W"
    and "week < W"
  shows "\<exists>acc' w' cs. patternWeek cfg e name pat acc week w = Ok acc' w'
    \<and> wrote cfg w w' cs
    \<and> list_all2 datedOn cs
        (concat (map (\<lambda>day. if pat ! day ! week = CHR ''#''
           then replicate (nat (PATTERN_COMMITS cfg))
                  (PATTERN_START_DATE cfg + (7 * int week + int day))
           else []) [0..<7]))"
  unfolding patternWeek_def
proof (rule forEach_wrote)
  fix acc day w
  assume "day \<in> set [0..<7]"
  then have "day < length pat" and "week < length (pat ! day)"
    using assms by auto
  from patternCell_wrote [OF assms(1) this]
  show "\<exists>acc' w' cs. patternCell cfg e name pat week acc day w = Ok acc' w'
    \<and> wrote cfg w w' cs
    \<and> list_all2 datedOn cs
        (if pat ! day ! week = CHR ''#''
         then replicate (nat (PATTERN_COMMITS cfg))
                (PATTERN_START_DATE cfg + (7 * int week + int day))
         else [])" .
qed

lemma drawPattern_wrote:
  assumes "nofail e" and "length pat = 7" and "\<forall>row \<in> set pat. length row = W"
  shows "\<exists>w' cs. drawPattern cfg e name pat w = Ok () w' \<and> wrote cfg w w' cs
    \<and> list_all2 datedOn cs
         (patternDays pat (PATTERN_START_DATE cfg) (nat (PATTERN_COMMITS cfg)))"
proof -
  from assms obtain row0 rest where pat: "pat = row0 # rest"
    by (cases pat) auto
  have W: "length row0 = W" "length (pat ! 0) = W"
    using assms pat by auto
  let ?f = "\<lambda>week. concat (map (\<lambda>day. if pat ! day ! week = CHR ''#''
           then replicate (nat (PATTERN_COMMITS cfg))
                  (PATTERN_START_DATE cfg + (7 * int week + int day))
           else []) [0..<7])"
  have "\<exists>acc' w' cs. forEach [0..<W] (patternWeek cfg e name pat) 0 w = Ok acc' w'
      \<and> wrote cfg w w' cs \<and> list_all2 datedOn cs (concat (map ?f [0..<W]))"
  proof (rule forEach_wrote)
    fix acc week w
    assume "week \<in> set [0..<W]"
    then have "week < W" by simp
    from patternWeek_wrote [OF assms this]
    show "\<exists>acc' w' cs. patternWeek cfg e name pat acc week w = Ok acc' w'
        \<and> wrote cfg w w' cs \<and> list_all2 datedOn cs (?f week)" .
  qed
  then obtain acc1 w1 cs where
    f: "forEach [0..<W] (patternWeek cfg e name pat) 0 w = Ok acc1 w1"
    and wr: "wrote cfg w w1 cs"
    and d: "list_all2 datedOn cs (concat (map ?f [0..<W]))"
    by auto
  have "drawPattern cfg e name pat w = Ok () (console_log (PatternDone acc1) w1)"
    using f W by (simp add: drawPattern_def pat)
  with wr d show ?thesis
    unfolding patternDays_def W by auto
qed

text \<open>
  C2. For a grid of seven rows of equal width with \<open>L\<close> lit cells and a count
  \<open>c \<ge> 0\<close> of commits per lit cell, when no call to the file system or to git fails,
  pattern mode returns having added exactly \<open>L * c\<close> commits (one per call of the commit
  writer, each with its line in the activity file), and the commits of the lit cell at
  column \<open>week\<close> and row \<open>weekday\<close> are dated on the start date plus
  \<open>7 * week + weekday\<close> days.
\<close>

theorem pattern_mode_commits:
  assumes "nofail e" and "length pat = 7" and "\<forall>row \<in> set pat. length row = W"
    and "0 \<le> PATTERN_COMMITS cfg"
  shows "\<exists>w' cs. drawPattern cfg e name pat w = Ok () w'
    \<and> commits w' = commits w @ cs
    \<and> files w' = foldl (\<lambda>fs c. appendTo fs (ACTIVITY_FILE cfg) (lineOf c)) (files w) cs
    \<and> int (length cs) = int (litCells pat) * PATTERN_COMMITS cfg
    \<and> list_all2 datedOn cs
         (patternDays pat (PATTERN_START_DATE cfg) (nat (PATTERN_COMMITS cfg)))"
proof -
  from drawPattern_wrote [OF assms(1-3), of cfg name w] obtain w' cs where
    r: "drawPattern cfg e name pat w = Ok () w'" and wr: "wrote cfg w w' cs"
    and d: "list_all2 datedOn cs
         (patternDays pat (PATTERN_START_DATE cfg) (nat (PATTERN_COMMITS cfg)))"
    by auto
  have "length cs = litCells pat * nat (PATTERN_COMMITS cfg)"
    using list_all2_lengthD [OF d] length_patternDays [OF assms(2,3)] by simp
  then have "int (length cs) = int (litCells pat) * PATTERN_COMMITS cfg"
    using assms(4) by simp
  with r wr d show ?thesis
    by (auto simp: wrote_def)
qed

lemma nofail_env0: "nofail env0"
  by (simp add: nofail_def env0_def)

theorem pattern_mode_commits_witness:
  "nofail env0 \<and> length pat_I = 7 \<and> litCells pat_I = 11
   \<and> (\<exists>w' cs. drawPattern CONFIG env0 ''I'' pat_I world0 = Ok () w'
         \<and> commits w' = cs \<and> length cs = 33
         \<and> list_all2 datedOn cs (patternDays pat_I 20093 3))"
proof -
  have h: "length pat_I = 7" "\<forall>row \<in> set pat_I. length row = 3"
    "0 \<le> PATTERN_COMMITS CONFIG"
    by (simp_all add: pat_I_def CONFIG_def)
  have l: "litCells pat_I = 11"
    by (simp add: litCells_def pat_I_def)
  from pattern_mode_commits [OF nofail_env0 h, of "''I''" world0]
  have "\<exists>w' cs. drawPattern CONFIG env0 ''I'' pat_I world0 = Ok () w'
         \<and> commits w' = cs \<and> length cs = 33
         \<and> list_all2 datedOn cs (patternDays pat_I 20093 3)"
    by (auto simp: CONFIG_def world0_def l)
  then show ?thesis
    using h(1) l nofail_env0 by blast
qed

lemma fill_mode_one_day:
  "\<exists>w' cs. runFillMode cfgOneDay env0 world0 = Ok () w'
     \<and> commits w' = cs \<and> list_all2 datedOn cs [20089, 20089]"
proof -
  have r: "\<forall>n. 0 \<le> rnd env0 n \<and> rnd env0 n < 1"
    by (simp add: env0_def)
  have k: "MIN_COMMITS_PER_DAY cfgOneDay = 2" "MAX_COMMITS_PER_DAY cfgOneDay = 2"
    by (simp_all add: cfgOneDay_def)
  have z: "tz env0 = fixedZone 0"
    by (simp add: env0_def)
  from fill_mode_constant_offset [OF nofail_env0 r k z, of world0]
  show ?thesis
    by (auto simp: cfgOneDay_def CONFIG_def world0_def numeral_2_eq_2)
qed

text \<open>
  Where the clocks skip midnight inside the range, the instant of the sequencer stays at
  01:00 from that day on, which on the last day is after the end (00:00 of that day):
  the end date is not yielded. In Egypt in 2025, the range from 2025-04-24 (day 20202)
  to 2025-04-26 (day 20204) yields two days, and the range of the source, the 365 days
  of 2025, yields 364 entries.
\<close>

lemma dayRange_cairo_days:
  "map (\<lambda>ent. Day (LocalTime cairo2025 (date ent))) (dayRange cairo2025 20202 20204)
     = [20202, 20203]"
  by code_simp

lemma length_dayRange_loop:
  "length (dayRange_loop z c e) =
     (if c \<le> e then Suc (length (dayRange_loop z (addDays z c 1) e)) else 0)"
  by (subst dayRange_loop.simps) simp

lemma addDays_cairo:
  "addDays cairo2025 t 1 =
     (let l = t + (if 1745532000000 \<le> t \<and> t < 1761858000000 then 10800000 else 7200000)
              + 86400000
      in l - (if 1745532000000 \<le> l - 10800000 \<and> l - 10800000 < 1761858000000
              then 10800000 else 7200000))"
  by (simp add: addDays_local LocalTime_def UTC_def offsetAt_def offsetOfLocal_def inDST_def
      cairo2025_def msPerDay_def msPerMinute_def Let_def)

lemma dayRange_cairo_year:
  "length (dayRange cairo2025 (START_DATE CONFIG) (END_DATE CONFIG)) = 364"
  unfolding dayRange_def
  by (simp add: CONFIG_def localMidnight_def UTC_def MakeDate_def offsetOfLocal_def inDST_def
      cairo2025_def msPerDay_def msPerMinute_def length_dayRange_loop addDays_cairo
      [unfolded cairo2025_def] Let_def)

lemma envCairo_facts:
  "nofail envCairo" "\<forall>n. 0 \<le> rnd envCairo n \<and> rnd envCairo n < 1" "tz envCairo = cairo2025"
  by (simp_all add: envCairo_def env0_def nofail_def)

lemma cfgCairo_facts:
  "START_DATE cfgCairo = 20202" "END_DATE cfgCairo = 20204"
  "MIN_COMMITS_PER_DAY cfgCairo = 1" "MAX_COMMITS_PER_DAY cfgCairo = 1"
  by (simp_all add: cfgCairo_def)

text \<open>
  C3. With \<open>min = max = k\<close> fill mode is to make exactly \<open>k\<close> commits for every date of
  the range. In Egypt (where the clocks go from 00:00 to 01:00 on 2025-04-25), for the
  range from 2025-04-24 to 2025-04-26 and \<open>k = 1\<close>, it makes two commits, dated on
  2025-04-24 and on 2025-04-25, and none on the end date 2025-04-26.
\<close>

theorem fill_mode_misses_end_date:
  "START_DATE cfgCairo = 20202 \<and> END_DATE cfgCairo = 20204
   \<and> MIN_COMMITS_PER_DAY cfgCairo = 1 \<and> MAX_COMMITS_PER_DAY cfgCairo = 1
   \<and> length (commits (worldOf (runFillMode cfgCairo envCairo world0))) = 2
   \<and> list_all2 datedOn (commits (worldOf (runFillMode cfgCairo envCairo world0)))
        [20202, 20203]"
proof -
  from runFillMode_wrote [OF envCairo_facts(1,2) cfgCairo_facts(3,4), of world0]
  obtain w' cs where r: "runFillMode cfgCairo envCairo world0 = Ok () w'"
    and wr: "wrote cfgCairo world0 w' cs"
    and d: "list_all2 datedOn cs [20202, 20203]"
    by (auto simp: envCairo_facts(3) cfgCairo_facts(1,2) dayRange_cairo_days o_def)
  have "commits w' = cs"
    using wr by (simp add: wrote_def world0_def)
  then show ?thesis
    using r d list_all2_lengthD [OF d] by (simp add: worldOf_def cfgCairo_facts)
qed

lemma lineBreaks_append [simp]: "lineBreaks (a @ b) = lineBreaks a + lineBreaks b"
  by (simp add: lineBreaks_def)

text \<open>
  C4, amended. When its three calls succeed, the commit writer appends the text
  \<open>message  |  timestamp\<close> and one line break to the activity file, stages the file, and
  adds one commit whose author date and committer date are both the given timestamp
  (whatever the environment variables of the process); the appended text is exactly one
  line when neither string holds a line break.
\<close>

theorem makeCommit_appends_and_commits:
  assumes "nofail e"
  shows "\<exists>w'. makeCommit cfg e dateStr msg w = Ok () w'
    \<and> fileText w' (ACTIVITY_FILE cfg)
        = fileText w (ACTIVITY_FILE cfg) @ msg @ ''  |  '' @ dateStr @ ''\<newline>''
    \<and> staged w' (ACTIVITY_FILE cfg) = files w' (ACTIVITY_FILE cfg)
    \<and> commits w' = commits w @
        [\<lparr>message = msg, authorDate = dateStr, committerDate = dateStr,
          snapshot = staged w'\<rparr>]
    \<and> (lineBreaks msg = 0 \<and> lineBreaks dateStr = 0 \<longrightarrow>
         lineBreaks (fileText w' (ACTIVITY_FILE cfg))
           = lineBreaks (fileText w (ACTIVITY_FILE cfg)) + 1)"
  using assms
  by (simp add: makeCommit_ok fileText_def appendTo_def activityLine_def lineBreaks_def)

theorem makeCommit_appends_and_commits_witness:
  "nofail env0
   \<and> lineBreaks ''Activity update #1 on 2025-01-01'' = 0
   \<and> lineBreaks ''2025-01-01 15:30:30'' = 0
   \<and> (\<exists>w'. makeCommit CONFIG env0 ''2025-01-01 15:30:30''
               ''Activity update #1 on 2025-01-01'' world0 = Ok () w'
         \<and> fileText w' ''activity.txt''
             = ''Activity update #1 on 2025-01-01  |  2025-01-01 15:30:30\<newline>''
         \<and> lineBreaks (fileText w' ''activity.txt'') = 1
         \<and> map authorDate (commits w') = [''2025-01-01 15:30:30'']
         \<and> map committerDate (commits w') = [''2025-01-01 15:30:30''])"
proof -
  have l: "lineBreaks ''Activity update #1 on 2025-01-01'' = 0"
    "lineBreaks ''2025-01-01 15:30:30'' = 0"
    by (simp_all add: lineBreaks_def)
  have f: "fileText world0 ''activity.txt'' = []" "commits world0 = []"
    by (simp_all add: fileText_def world0_def)
  from makeCommit_appends_and_commits [OF nofail_env0, of CONFIG "''2025-01-01 15:30:30''"
      "''Activity update #1 on 2025-01-01''" world0]
  obtain w' where w: "makeCommit CONFIG env0 ''2025-01-01 15:30:30''
               ''Activity update #1 on 2025-01-01'' world0 = Ok () w'"
    "fileText w' (ACTIVITY_FILE CONFIG)
        = fileText world0 (ACTIVITY_FILE CONFIG) @ ''Activity update #1 on 2025-01-01''
          @ ''  |  '' @ ''2025-01-01 15:30:30'' @ ''\<newline>''"
    "commits w' = commits world0 @
        [\<lparr>message = ''Activity update #1 on 2025-01-01'',
          authorDate = ''2025-01-01 15:30:30'', committerDate = ''2025-01-01 15:30:30'',
          snapshot = staged w'\<rparr>]"
    "lineBreaks (fileText w' (ACTIVITY_FILE CONFIG))
           = lineBreaks (fileText world0 (ACTIVITY_FILE CONFIG)) + 1"
    using l by auto
  have a: "ACTIVITY_FILE CONFIG = ''activity.txt''"
    by (simp add: CONFIG_def)
  have "lineBreaks [] = 0"
    by (simp add: lineBreaks_def)
  then show ?thesis
    using w l f nofail_env0 unfolding a by simp
qed

text \<open>
  C4 as the specification states it promises exactly one appended line for every
  message. A message that holds a line break adds two lines to the activity file.
\<close>

theorem makeCommit_two_lines_counterexample:
  "lineBreaks (fileText world0 ''activity.txt'') = 0
   \<and> lineBreaks (fileText
        (worldOf (makeCommit CONFIG env0 ''2025-01-01 10:00:00'' ''a\<newline>b'' world0))
        ''activity.txt'') = 2"
  by (simp add: makeCommit_ok nofail_env0 worldOf_def fileText_def appendTo_def
      activityLine_def lineBreaks_def world0_def CONFIG_def)

subsection \<open>The entry point\<close>

lemma ensureRepo_ok:
  assumes "nofail e"
  shows "\<exists>w1. ensureRepo e w = Ok () w1 \<and> commits w1 = commits w \<and> files w1 = files w
    \<and> stderr w1 = stderr w
    \<and> stdout w1 = stdout w @ (if isRepo w then [] else [InitialisingRepo])"
  using assms by (simp add: ensureRepo_def external_ok console_log_def)

lemma main_start:
  assumes "nofail e"
  shows "\<exists>w1. main cfg e argv w =
      andThen
        (if parseMode argv = ''fill'' then runFillMode cfg e w1
         else if parseMode argv = ''pattern'' then runPatternMode cfg e argv w1
         else Exited 1 (console_error (UnknownMode (parseMode argv)) w1))
        (\<lambda>_ w2. Ok () (console_log NextPush (console_log NextBranch
                   (console_log NextRemote (console_log NextSteps w2)))))
    \<and> commits w1 = commits w \<and> files w1 = files w \<and> stderr w1 = stderr w
    \<and> stdout w1 = stdout w @ [BannerRule, BannerTitle, BannerRuleBlank]
        @ (if isRepo w then [] else [InitialisingRepo])"
proof -
  let ?w0 = "console_log BannerRuleBlank (console_log BannerTitle (console_log BannerRule w))"
  from ensureRepo_ok [OF assms, of ?w0] obtain w1 where
    "ensureRepo e ?w0 = Ok () w1" "commits w1 = commits ?w0" "files w1 = files ?w0"
    "stderr w1 = stderr ?w0"
    "stdout w1 = stdout ?w0 @ (if isRepo ?w0 then [] else [InitialisingRepo])"
    by auto
  then show ?thesis
    by (auto simp: main_def console_log_def)
qed

lemma program_unknown_mode:
  assumes "nofail e" and "parseMode argv \<noteq> ''fill''" and "parseMode argv \<noteq> ''pattern''"
  shows "fst (program cfg e argv w) = 1
    \<and> stderr (snd (program cfg e argv w)) = stderr w @ [UnknownMode (parseMode argv)]
    \<and> commits (snd (program cfg e argv w)) = commits w
    \<and> files (snd (program cfg e argv w)) = files w"
proof -
  from main_start [OF assms(1), of cfg argv w] obtain w1 where
    "main cfg e argv w = Exited 1 (console_error (UnknownMode (parseMode argv)) w1)"
    "commits w1 = commits w" "files w1 = files w" "stderr w1 = stderr w"
    using assms(2,3) by auto
  then show ?thesis
    by (simp add: program_def console_error_def)
qed

lemma joined_pattern_names: "join_js '', '' (map fst PATTERNS) = ''H, I, HEART, SMILE, HI''"
  by (simp add: PATTERNS_def)

lemma program_unknown_pattern:
  assumes "nofail e" and "parseMode argv = ''pattern''"
    and "patternNameOf argv \<notin> fst ` set PATTERNS"
  shows "fst (program cfg e argv w) = 1
    \<and> stderr (snd (program cfg e argv w))
        = stderr w @ [UnknownPattern (patternNameOf argv),
                      AvailablePatterns ''H, I, HEART, SMILE, HI'']
    \<and> commits (snd (program cfg e argv w)) = commits w
    \<and> files (snd (program cfg e argv w)) = files w"
proof -
  have none: "map_of PATTERNS (patternNameOf argv) = None"
    using assms(3) by (simp add: map_of_eq_None_iff)
  from main_start [OF assms(1), of cfg argv w] obtain w1 where
    "main cfg e argv w = andThen (runPatternMode cfg e argv w1)
        (\<lambda>_ w2. Ok () (console_log NextPush (console_log NextBranch
                   (console_log NextRemote (console_log NextSteps w2)))))"
    "commits w1 = commits w" "files w1 = files w" "stderr w1 = stderr w"
    using assms(2) by auto
  then show ?thesis
    by (simp add: program_def runPatternMode_def none joined_pattern_names console_error_def)
qed

lemma runFillMode_empty_range:
  assumes "END_DATE cfg < START_DATE cfg"
  shows "runFillMode cfg e w =
    Ok () (console_log (FillDone 0 0)
      (console_log (FillDensity (MIN_COMMITS_PER_DAY cfg) (MAX_COMMITS_PER_DAY cfg))
         (console_log (FillRange (START_DATE cfg) (END_DATE cfg))
            (console_log FillHeader w))))"
  using assms by (simp add: runFillMode_def dayRange_empty)

lemma program_fill_empty_range:
  assumes "nofail e" and "parseMode argv = ''fill''" and "END_DATE cfg < START_DATE cfg"
  shows "fst (program cfg e argv w) = 0
    \<and> stderr (snd (program cfg e argv w)) = stderr w
    \<and> commits (snd (program cfg e argv w)) = commits w
    \<and> files (snd (program cfg e argv w)) = files w
    \<and> stdout (snd (program cfg e argv w)) =
        stdout w @ [BannerRule, BannerTitle, BannerRuleBlank]
        @ (if isRepo w then [] else [InitialisingRepo])
        @ [FillHeader, FillRange (START_DATE cfg) (END_DATE cfg),
           FillDensity (MIN_COMMITS_PER_DAY cfg) (MAX_COMMITS_PER_DAY cfg), FillDone 0 0,
           NextSteps, NextRemote, NextBranch, NextPush]"
proof -
  from main_start [OF assms(1), of cfg argv w] obtain w1 where
    "main cfg e argv w = andThen (runFillMode cfg e w1)
        (\<lambda>_ w2. Ok () (console_log NextPush (console_log NextBranch
                   (console_log NextRemote (console_log NextSteps w2)))))"
    "commits w1 = commits w" "files w1 = files w" "stderr w1 = stderr w"
    "stdout w1 = stdout w @ [BannerRule, BannerTitle, BannerRuleBlank]
        @ (if isRepo w then [] else [InitialisingRepo])"
    using assms(2) by auto
  then show ?thesis
    by (simp add: program_def runFillMode_empty_range [OF assms(3)] console_log_def)
qed

lemma indexOf_absent: "x \<notin> set xs \<Longrightarrow> indexOf xs x = - 1"
  by (induction xs) (auto simp: Let_def)

lemma lowerChar_separators: "lowerChar (CHR ''/'') = CHR ''/''" "lowerChar (CHR 0x5C) = CHR 0x5C"
  by (simp_all add: lowerChar_def upperLetters_def lowerLetters_def)

lemma isPath_toLowerCase: "isPath s \<Longrightarrow> isPath (toLowerCase s)"
  unfolding isPath_def toLowerCase_def
  using lowerChar_separators by (metis image_eqI set_map)

lemma isPath_not_mode:
  assumes "isPath s"
  shows "toLowerCase s \<noteq> ''fill''" and "toLowerCase s \<noteq> ''pattern''" and "s \<noteq> []"
proof -
  have "\<not> isPath ''fill''" and "\<not> isPath ''pattern''" and "\<not> isPath []"
    by (simp_all add: isPath_def)
  then show "toLowerCase s \<noteq> ''fill''" and "toLowerCase s \<noteq> ''pattern''" and "s \<noteq> []"
    using isPath_toLowerCase [OF assms] assms by auto
qed

lemma parseMode_no_exact_flag:
  assumes "\<exists>a \<in> set argv. startsWith a ''--mode''" and "''--mode'' \<notin> set argv"
    and "isPath (argv ! 0)"
  shows "parseMode argv = toLowerCase (argv ! 0)"
proof -
  from assms(1) have ne: "argv \<noteq> []" by auto
  from assms(1) obtain flag where "find (\<lambda>a. startsWith a ''--mode'') argv = Some flag"
    by (cases "find (\<lambda>a. startsWith a ''--mode'') argv") (auto simp: find_None_iff)
  moreover have "nth_opt argv (indexOf argv ''--mode'' + 1) = Some (argv ! 0)"
    using ne by (simp add: indexOf_absent [OF assms(2)] nth_opt_def)
  moreover have "argv ! 0 \<noteq> []"
    using isPath_not_mode(3) [OF assms(3)] .
  ultimately show ?thesis
    by (simp add: parseMode_def)
qed

text \<open>
  C10. When an argument starts with \<open>--mode\<close> but none is \<open>--mode\<close> itself, and the
  argument 0 is the path of the executable (it holds a path separator), the mode is the
  argument 0 in lower case, which is neither \<open>fill\<close> nor \<open>pattern\<close>: when the repository
  check does not fail, the run reports an unknown mode on the error stream, ends with
  code 1, and adds no commit and writes no file.
\<close>

theorem mode_flag_without_exact_token:
  assumes "nofail e"
    and "\<exists>a \<in> set argv. startsWith a ''--mode''" and "''--mode'' \<notin> set argv"
    and "isPath (argv ! 0)"
  shows "parseMode argv = toLowerCase (argv ! 0)
    \<and> parseMode argv \<noteq> ''fill'' \<and> parseMode argv \<noteq> ''pattern''
    \<and> fst (program cfg e argv w) = 1
    \<and> stderr (snd (program cfg e argv w)) = stderr w @ [UnknownMode (toLowerCase (argv ! 0))]
    \<and> commits (snd (program cfg e argv w)) = commits w
    \<and> files (snd (program cfg e argv w)) = files w"
proof -
  have m: "parseMode argv = toLowerCase (argv ! 0)"
    using assms(2-4) by (rule parseMode_no_exact_flag)
  have n: "parseMode argv \<noteq> ''fill''" "parseMode argv \<noteq> ''pattern''"
    unfolding m using isPath_not_mode [OF assms(4)] by simp_all
  from program_unknown_mode [OF assms(1) n, of cfg w] m n show ?thesis
    by simp
qed

lemma argvModeEquals_facts:
  "\<exists>a \<in> set argvModeEquals. startsWith a ''--mode''" "''--mode'' \<notin> set argvModeEquals"
  "isPath (argvModeEquals ! 0)" "toLowerCase (argvModeEquals ! 0) = ''/usr/bin/node''"
  by (simp_all add: argvModeEquals_def startsWith_def isPath_def toLowerCase_def lowerChar_def
      upperLetters_def lowerLetters_def)

theorem mode_flag_without_exact_token_witness:
  "nofail env0 \<and> ''--mode'' \<notin> set argvModeEquals \<and> isPath (argvModeEquals ! 0)
   \<and> startsWith (argvModeEquals ! 2) ''--mode''
   \<and> parseMode argvModeEquals = ''/usr/bin/node''
   \<and> fst (program CONFIG env0 argvModeEquals world0) = 1
   \<and> stderr (snd (program CONFIG env0 argvModeEquals world0)) = [UnknownMode ''/usr/bin/node'']
   \<and> commits (snd (program CONFIG env0 argvModeEquals world0)) = []"
proof -
  have s: "startsWith (argvModeEquals ! 2) ''--mode''"
    by (simp add: argvModeEquals_def startsWith_def)
  have w: "stderr world0 = []" "commits world0 = []"
    by (simp_all add: world0_def)
  from mode_flag_without_exact_token [OF nofail_env0 argvModeEquals_facts(1-3), of CONFIG world0]
  show ?thesis
    using s w nofail_env0 argvModeEquals_facts by simp
qed

text \<open>
  C9. In pattern mode, when the pattern name (the argument 3 in upper case) is not a key of
  \<open>PATTERNS\<close> and the repository check does not fail, the run writes the unknown name and
  the list of the valid names to the error stream, ends with code 1, and leaves the
  history and the files as they were.
\<close>

theorem unknown_pattern_fails_fast:
  assumes "nofail e" and "parseMode argv = ''pattern''"
    and "patternNameOf argv \<notin> fst ` set PATTERNS"
  shows "fst (program cfg e argv w) = 1
    \<and> stderr (snd (program cfg e argv w))
        = stderr w @ [UnknownPattern (patternNameOf argv),
                      AvailablePatterns ''H, I, HEART, SMILE, HI'']
    \<and> commits (snd (program cfg e argv w)) = commits w
    \<and> files (snd (program cfg e argv w)) = files w"
  using assms by (rule program_unknown_pattern)

lemma argvPatternX_facts:
  "parseMode argvPatternX = ''pattern''" "patternNameOf argvPatternX = ''X''"
  "''X'' \<notin> fst ` set PATTERNS"
  by (simp_all add: argvPatternX_def parseMode_def patternNameOf_def startsWith_def nth_opt_def
      toLowerCase_def toUpperCase_def lowerChar_def upperChar_def upperLetters_def
      lowerLetters_def PATTERNS_def)

theorem unknown_pattern_fails_fast_witness:
  "nofail env0 \<and> parseMode argvPatternX = ''pattern''
   \<and> patternNameOf argvPatternX \<notin> fst ` set PATTERNS
   \<and> fst (program CONFIG env0 argvPatternX world0) = 1
   \<and> stderr (snd (program CONFIG env0 argvPatternX world0))
       = [UnknownPattern ''X'', AvailablePatterns ''H, I, HEART, SMILE, HI'']
   \<and> commits (snd (program CONFIG env0 argvPatternX world0)) = []
   \<and> files (snd (program CONFIG env0 argvPatternX world0)) = Map.empty"
proof -
  have x: "patternNameOf argvPatternX \<notin> fst ` set PATTERNS"
    using argvPatternX_facts(2,3) by simp
  have w: "stderr world0 = []" "commits world0 = []" "files world0 = Map.empty"
    by (simp_all add: world0_def)
  from unknown_pattern_fails_fast [OF nofail_env0 argvPatternX_facts(1) x, of CONFIG world0]
  show ?thesis
    using w x nofail_env0 argvPatternX_facts(1,2) by simp
qed

lemma argvPattern_facts:
  "parseMode argvPattern = ''pattern''" "patternNameOf argvPattern = ''PATTERN''"
  "''PATTERN'' \<notin> fst ` set PATTERNS"
  by (simp_all add: argvPattern_def parseMode_def patternNameOf_def startsWith_def nth_opt_def
      toLowerCase_def toUpperCase_def lowerChar_def upperChar_def upperLetters_def
      lowerLetters_def PATTERNS_def)

text \<open>
  C8. Pattern mode with no pattern name is to draw \<open>HI\<close>. The pattern name is read from
  \<open>process.argv[3]\<close>, which in \<open>node index.js --mode pattern\<close> (the usage the header of
  the script documents) is the mode value itself: the name is \<open>PATTERN\<close>, no pattern is
  drawn, and the run ends with code 1.
\<close>

theorem pattern_mode_without_name_fails:
  "parseMode argvPattern = ''pattern'' \<and> patternNameOf argvPattern = ''PATTERN''
   \<and> fst (program CONFIG env0 argvPattern world0) = 1
   \<and> stderr (snd (program CONFIG env0 argvPattern world0))
       = [UnknownPattern ''PATTERN'', AvailablePatterns ''H, I, HEART, SMILE, HI'']
   \<and> commits (snd (program CONFIG env0 argvPattern world0)) = []"
proof -
  have x: "patternNameOf argvPattern \<notin> fst ` set PATTERNS"
    using argvPattern_facts(2,3) by simp
  have w: "stderr world0 = []" "commits world0 = []"
    by (simp_all add: world0_def)
  from program_unknown_pattern [OF nofail_env0 argvPattern_facts(1) x, of CONFIG world0]
  show ?thesis
    using w argvPattern_facts(1,2) by simp
qed

text \<open>
  C6, amended. When the start of the range is after its end, the day sequencer yields no
  day: fill mode (when the repository check does not fail) makes no commit, writes no
  file and nothing to the error stream, reports 0 commits across 0 days on the output
  stream, and the run ends with code 0.
\<close>

theorem invalid_range_is_silent:
  assumes "nofail e" and "parseMode argv = ''fill''" and "END_DATE cfg < START_DATE cfg"
  shows "dayRange (tz e) (START_DATE cfg) (END_DATE cfg) = []
    \<and> fst (program cfg e argv w) = 0
    \<and> stderr (snd (program cfg e argv w)) = stderr w
    \<and> commits (snd (program cfg e argv w)) = commits w
    \<and> files (snd (program cfg e argv w)) = files w
    \<and> stdout (snd (program cfg e argv w)) =
        stdout w @ [BannerRule, BannerTitle, BannerRuleBlank]
        @ (if isRepo w then [] else [InitialisingRepo])
        @ [FillHeader, FillRange (START_DATE cfg) (END_DATE cfg),
           FillDensity (MIN_COMMITS_PER_DAY cfg) (MAX_COMMITS_PER_DAY cfg), FillDone 0 0,
           NextSteps, NextRemote, NextBranch, NextPush]"
  using program_fill_empty_range [OF assms] assms(3) by (simp add: dayRange_empty)

lemma argvPlain_fill: "parseMode argvPlain = ''fill''"
  by (simp add: argvPlain_def parseMode_def startsWith_def)

lemma cfgBackwards_range: "END_DATE cfgBackwards < START_DATE cfgBackwards"
  by (simp add: cfgBackwards_def)

theorem invalid_range_is_silent_witness:
  "nofail env0 \<and> parseMode argvPlain = ''fill''
   \<and> END_DATE cfgBackwards < START_DATE cfgBackwards
   \<and> dayRange (tz env0) (START_DATE cfgBackwards) (END_DATE cfgBackwards) = []
   \<and> fst (program cfgBackwards env0 argvPlain world0) = 0
   \<and> commits (snd (program cfgBackwards env0 argvPlain world0)) = []"
proof -
  have w: "commits world0 = []"
    by (simp add: world0_def)
  from invalid_range_is_silent [OF nofail_env0 argvPlain_fill cfgBackwards_range, of world0]
  show ?thesis
    using w nofail_env0 argvPlain_fill cfgBackwards_range by simp
qed

text \<open>
  C6 as the specification states it asks for a report on the error stream and a non-zero
  exit code when the start is after the end. The run of \<open>node index.js\<close> with the range
  2025-12-31 to 2025-01-01 ends with code 0 and an empty error stream.
\<close>

theorem invalid_range_exit_counterexample:
  "END_DATE cfgBackwards < START_DATE cfgBackwards
   \<and> fst (program cfgBackwards env0 argvPlain world0) = 0
   \<and> stderr (snd (program cfgBackwards env0 argvPlain world0)) = []"
proof -
  have w: "stderr world0 = []"
    by (simp add: world0_def)
  from program_fill_empty_range [OF nofail_env0 argvPlain_fill cfgBackwards_range, of world0]
  show ?thesis
    using w cfgBackwards_range by simp
qed

subsection \<open>What the day sequencer does in a zone of constant offset\<close>

text \<open>
  In a zone of constant offset the \<open>date\<close> fields of the entries are the local
  midnights of the days from the start to the end, one entry a day
  (\<open>dayRange_local_days\<close>, \<open>dayRange_length\<close>, \<open>dayRange_first_last\<close>). The \<open>iso\<close>
  field is cut from the UTC rendering of that instant, whose day is the local day at an
  offset of at most zero and the day before at an offset above zero.
\<close>

lemma dayRange_length: "length (dayRange (fixedZone m) s e) = nat (e - s + 1)"
  by (simp add: dayRange_eq)

lemma dayRange_first_last:
  assumes "s \<le> e"
  shows "Day (LocalTime (fixedZone m) (date (hd (dayRange (fixedZone m) s e)))) = s"
    and "Day (LocalTime (fixedZone m) (date (last (dayRange (fixedZone m) s e)))) = e"
proof -
  have ne: "[s..e] \<noteq> []" using assms by simp
  have h: "hd [s..e] = s"
    using assms by (simp add: upto_rec1)
  have l: "last [s..e] = e"
    using assms by (simp add: upto_rec2)
  show "Day (LocalTime (fixedZone m) (date (hd (dayRange (fixedZone m) s e)))) = s"
    using ne h by (simp add: dayRange_eq hd_map localDay_localMidnight)
  show "Day (LocalTime (fixedZone m) (date (last (dayRange (fixedZone m) s e)))) = e"
    using ne l by (simp add: dayRange_eq last_map localDay_localMidnight)
qed

lemma dayRange_utc_days:
  "map (\<lambda>ent. Day (date ent)) (dayRange (fixedZone m) s e) =
     map (\<lambda>D. Day (localMidnight (fixedZone m) D)) [s..e]"
  by (simp add: dayRange_eq o_def)

lemma utcDay_localMidnight_west:
  assumes "- 1440 < m" and "m \<le> 0"
  shows "Day (localMidnight (fixedZone m) D) = D"
proof -
  have "localMidnight (fixedZone m) D = D * 86400000 + (- m * 60000)"
    by (simp add: localMidnight_eq msPerDay_def msPerMinute_def)
  moreover have "0 \<le> - m * 60000" and "- m * 60000 < 86400000"
    using assms by simp_all
  ultimately show ?thesis
    by (simp add: Day_def msPerDay_def div_pos_pos_trivial)
qed

lemma utcDay_localMidnight_east:
  assumes "0 < m" and "m \<le> 1440"
  shows "Day (localMidnight (fixedZone m) D) = D - 1"
proof -
  have "localMidnight (fixedZone m) D = (D - 1) * 86400000 + (86400000 - m * 60000)"
    by (simp add: localMidnight_eq msPerDay_def msPerMinute_def algebra_simps)
  moreover have "0 \<le> 86400000 - m * 60000" and "86400000 - m * 60000 < 86400000"
    using assms by simp_all
  ultimately show ?thesis
    by (simp add: Day_def msPerDay_def div_pos_pos_trivial)
qed

subsection \<open>What the pattern name is read from\<close>

text \<open>
  The default \<open>HI\<close> applies when the argument 3 is missing or empty. In pattern mode it
  is never missing: the mode is \<open>pattern\<close> only when an argument \<open>--mode\<close> stands at
  index 2 or later and is followed by another argument. (The default is left to a
  command line whose argument 3 is the empty string, with \<open>--mode\<close> after it.)
\<close>

lemma indexOf_present:
  "x \<in> set xs \<Longrightarrow>
     0 \<le> indexOf xs x \<and> indexOf xs x < int (length xs) \<and> xs ! nat (indexOf xs x) = x"
proof (induction xs)
  case Nil
  then show ?case by simp
next
  case (Cons y ys)
  show ?case
  proof (cases "y = x")
    case True
    then show ?thesis by simp
  next
    case False
    with Cons.prems have "x \<in> set ys" by simp
    from Cons.IH [OF this] False show ?thesis
      by (simp add: Let_def nat_add_distrib)
  qed
qed

lemma patternNameOf_default: "nth_opt argv 3 = None \<Longrightarrow> patternNameOf argv = ''HI''"
  by (simp add: patternNameOf_def toUpperCase_def upperChar_def upperLetters_def
      lowerLetters_def)

lemma pattern_mode_has_argv3:
  assumes "parseMode argv = ''pattern''" and "isPath (argv ! 0)" and "isPath (argv ! 1)"
  shows "nth_opt argv 3 \<noteq> None"
proof -
  have np: "\<not> isPath ''--mode''"
    by (simp add: isPath_def)
  have flag: "find (\<lambda>a. startsWith a ''--mode'') argv \<noteq> None"
    using assms(1) by (auto simp: parseMode_def split: option.splits)
  then have some: "\<exists>a \<in> set argv. startsWith a ''--mode''"
    by (auto simp: find_None_iff)
  have mem: "''--mode'' \<in> set argv"
  proof (rule ccontr)
    assume "''--mode'' \<notin> set argv"
    from parseMode_no_exact_flag [OF some this assms(2)] isPath_not_mode(2) [OF assms(2)]
    show False using assms(1) by simp
  qed
  let ?i = "indexOf argv ''--mode''"
  from indexOf_present [OF mem] have i: "0 \<le> ?i" "?i < int (length argv)"
    "argv ! nat ?i = ''--mode''"
    by simp_all
  have "nat ?i \<noteq> 0" and "nat ?i \<noteq> 1"
    using i(3) assms(2,3) np by auto
  then have i2: "2 \<le> ?i"
    using i(1) by linarith
  have "nth_opt argv (?i + 1) \<noteq> None"
  proof
    assume "nth_opt argv (?i + 1) = None"
    then have "parseMode argv = ''fill''"
      using flag by (auto simp: parseMode_def toLowerCase_def lowerChar_def upperLetters_def
          lowerLetters_def split: option.splits)
    with assms(1) show False by simp
  qed
  then have "?i + 1 < int (length argv)"
    by (auto simp: nth_opt_def split: if_splits)
  with i2 show ?thesis
    by (simp add: nth_opt_def)
qed

end
